theory Spec2Isabelle
  imports Complex_Main "HOL-Library.Word" "HOL-Library.Signed_Division"
begin

section \<open>The environment of drivers.cpp\<close>

text \<open>
  drivers.cpp talks to the kernel through text files. The model threads one explicit
  \<open>world\<close> through every operation: the readable files, the outcomes the kernel will
  give to the coming write attempts, the trace of everything the drivers did, the system
  clock, the C library's \<open>errno\<close>, and the two globals of the daemon that the drivers
  use (\<open>sleeptime\<close> and \<open>temp_state\<close>).
\<close>

type_synonym cint = "32 word"  \<comment> \<open>C++ \<open>int\<close>\<close>

text \<open>The error numbers of Linux's errno.h that matter here.\<close>

definition EPERM :: int where "EPERM = 1"    \<comment> \<open>"Operation not permitted"\<close>
definition EACCES :: int where "EACCES = 13"  \<comment> \<open>"Permission denied"\<close>
definition EINVAL :: int where "EINVAL = 22"  \<comment> \<open>"Invalid argument"\<close>

text \<open>
  The message macros live in message.h, which is not among the sources. A message is
  kept as the macro applied to its arguments; \<open>Text\<close> is a string built in place.
\<close>

datatype message =
    MSG_FAN_EPERM string
  | MSG_FAN_CTRL string string
  | MSG_FAN_INIT string
  | MSG_FAN_RESET string
  | MSG_FAN_MODOPTS
  | MSG_CONF_CORRECTION_LEN string nat nat
  | MSG_T_GET string
  | MSG_SENSOR_INIT string
  | Text string

text \<open>
  The exceptions of error.h. \<open>OutOfBounds\<close> is not an exception: it marks an access
  beyond the end of a \<open>std::vector\<close>, where C++ leaves the behaviour undefined.
\<close>

datatype error =
    SystemError message
  | IOerror message int
  | ConfigError message
  | OutOfBounds

datatype log_level = TF_DBG | TF_WRN

datatype event =
    Write string string "int option"  \<comment> \<open>path, text, \<open>None\<close> or the errno of the failure\<close>
  | SleepFor real
  | Log log_level message

record world =
  files :: "string \<Rightarrow> int + string"  \<comment> \<open>\<open>Inl e\<close>: opening fails with errno \<open>e\<close>\<close>
  wr_script :: "int option list"    \<comment> \<open>outcomes of the coming write attempts\<close>
  trace :: "event list"
  clock :: real                     \<comment> \<open>\<open>system_clock::now()\<close>, in seconds\<close>
  errno :: int
  sleeptime :: real                 \<comment> \<open>the daemon's polling period, in seconds\<close>
  temp_state :: "cint list"

text \<open>
  One attempt to open a path for writing, write a text, and flush. The kernel's answer is
  the head of \<open>wr_script\<close>; an exhausted script means success.
\<close>

definition write_file :: "string \<Rightarrow> string \<Rightarrow> world \<Rightarrow> bool \<times> world" where
  "write_file p s w =
     (case wr_script w of
        [] \<Rightarrow> (True, w\<lparr>trace := trace w @ [Write p s None]\<rparr>)
      | None # rs \<Rightarrow> (True, w\<lparr>wr_script := rs, trace := trace w @ [Write p s None]\<rparr>)
      | Some e # rs \<Rightarrow>
          (False, w\<lparr>wr_script := rs, trace := trace w @ [Write p s (Some e)], errno := e\<rparr>))"

definition sleep_for :: "real \<Rightarrow> world \<Rightarrow> world" where
  "sleep_for d w = w\<lparr>clock := clock w + d, trace := trace w @ [SleepFor d]\<rparr>"

definition log :: "log_level \<Rightarrow> message \<Rightarrow> world \<Rightarrow> world" where
  "log l m w = w\<lparr>trace := trace w @ [Log l m]\<rparr>"

text \<open>The outcome the kernel will give to the \<open>k\<close>-th of the coming write attempts.\<close>

definition script_at :: "int option list \<Rightarrow> nat \<Rightarrow> int option" where
  "script_at rs k = (if k < length rs then rs ! k else None)"

definition outcome :: "world \<Rightarrow> nat \<Rightarrow> int option" where
  "outcome w k = script_at (wr_script w) k"

text \<open>\<open>std::to_string\<close> and \<open>operator<<\<close> on integers: decimal digits.\<close>

function to_string_nat :: "nat \<Rightarrow> string" where
  "to_string_nat n =
     (if n < 10 then [''0123456789'' ! n]
      else to_string_nat (n div 10) @ [''0123456789'' ! (n mod 10)])"
  by pat_completeness auto
termination
  by (relation "measure id") auto

declare to_string_nat.simps [simp del]

definition to_string :: "cint \<Rightarrow> string" where
  "to_string i =
     (if sint i < 0 then CHR ''-'' # to_string_nat (nat (- sint i))
      else to_string_nat (nat (sint i)))"

section \<open>FanDriver\<close>

text \<open>
  A \<open>Level\<close> (declared outside drivers.cpp) offers \<open>str()\<close> and \<open>num()\<close>.
  The fields of the fan classes carry the suffix \<open>f\<close>: \<open>path_f\<close> is \<open>path_\<close>.
  \<open>last_watchdog_ping_f\<close> is a time point, default-constructed to the epoch.
\<close>

record Level =
  str :: string
  num :: cint

record FanDriver =
  path_f :: string
  watchdog_f :: nat       \<comment> \<open>seconds\<close>
  depulse_f :: real       \<comment> \<open>seconds\<close>
  initial_state_f :: string
  last_watchdog_ping_f :: real

definition FanDriver_ctor :: "string \<Rightarrow> nat \<Rightarrow> FanDriver" where
  "FanDriver_ctor path watchdog_timeout =
     \<lparr>path_f = path, watchdog_f = watchdog_timeout, depulse_f = 0,
      initial_state_f = [], last_watchdog_ping_f = 0\<rparr>"

definition FanDriver_set_speed :: "FanDriver \<Rightarrow> string \<Rightarrow> world \<Rightarrow> (error + unit) \<times> world" where
  "FanDriver_set_speed d level w =
     (case write_file (path_f d) level w of
        (True, w') \<Rightarrow> (Inr (), w')
      | (False, w') \<Rightarrow>
          (let err = errno w' in
           if err = EPERM then (Inl (SystemError (MSG_FAN_EPERM (path_f d))), w')
           else (Inl (IOerror (MSG_FAN_CTRL level (path_f d)) err), w')))"

section \<open>HwmonFanDriver\<close>

definition HwmonFanDriver_init :: "FanDriver \<Rightarrow> world \<Rightarrow> (error + unit) \<times> world" where
  "HwmonFanDriver_init d w =
     (case write_file (path_f d @ ''_enable'') ''1'' w of
        (True, w') \<Rightarrow> (Inr (), w')
      | (False, w') \<Rightarrow> (Inl (IOerror (MSG_FAN_INIT (path_f d)) (errno w')), w'))"

definition suspend_msg :: message where
  "suspend_msg =
     Text ''It seems we woke up from suspend. PWM fan driver had to be re-initialized.''"

definition HwmonFanDriver_set_speed :: "FanDriver \<Rightarrow> Level \<Rightarrow> world \<Rightarrow> (error + unit) \<times> world" where
  "HwmonFanDriver_set_speed d level w =
     (case FanDriver_set_speed d (to_string (num level)) w of
        (Inl (IOerror m code), w1) \<Rightarrow>
          if code = EINVAL then
            (case HwmonFanDriver_init d w1 of
               (Inl e, w2) \<Rightarrow> (Inl e, w2)
             | (Inr u, w2) \<Rightarrow>
                 (case FanDriver_set_speed d (to_string (num level)) w2 of
                    (Inl e, w3) \<Rightarrow> (Inl e, w3)
                  | (Inr u', w3) \<Rightarrow> (Inr (), log TF_DBG suspend_msg w3)))
          else (Inl (IOerror m code), w1)
      | r \<Rightarrow> r)"

section \<open>Input streams\<close>

text \<open>
  A \<open>std::ifstream\<close> (or \<open>std::fstream\<close>) that is read: the text of the file, the get
  position and the two state bits the code tests. Device errors (\<open>badbit\<close>) are not
  modelled: a file either cannot be opened or delivers its text.
\<close>

abbreviation NUL :: char where "NUL \<equiv> CHR 0x00"
abbreviation TAB :: char where "TAB \<equiv> CHR 0x09"
abbreviation NL :: char where "NL \<equiv> CHR 0x0A"

record istream =
  content :: string
  gpos :: nat
  eofbit :: bool
  failbit :: bool

definition good :: "istream \<Rightarrow> bool" where
  "good f = (\<not> eofbit f \<and> \<not> failbit f)"

text \<open>Opening a path for reading; a failed open sets \<open>failbit\<close> and \<open>errno\<close>.\<close>

definition open_in :: "string \<Rightarrow> world \<Rightarrow> istream \<times> world" where
  "open_in p w =
     (case files w p of
        Inl e \<Rightarrow> (\<lparr>content = [], gpos = 0, eofbit = False, failbit = True\<rparr>, w\<lparr>errno := e\<rparr>)
      | Inr s \<Rightarrow> (\<lparr>content = s, gpos = 0, eofbit = False, failbit = False\<rparr>, w))"

text \<open>
  Writing a C string into a caller's buffer of fixed size: the characters, then the
  terminator; what the buffer held beyond the terminator stays.
\<close>

definition store_cstr :: "string \<Rightarrow> string \<Rightarrow> string" where
  "store_cstr b cs = take (length b) (cs @ [NUL] @ drop (length cs + 1) b)"

text \<open>
  \<open>istream::getline(char *s, streamsize n)\<close>: at most \<open>n - 1\<close> characters are stored.
  End of file sets \<open>eofbit\<close>; a newline is extracted and not stored; a full buffer sets
  \<open>failbit\<close>; so does extracting nothing at all.
\<close>

definition getline :: "istream \<Rightarrow> string \<Rightarrow> nat \<Rightarrow> istream \<times> string" where
  "getline f b n =
     (if \<not> good f then (f\<lparr>failbit := True\<rparr>, store_cstr b [])
      else
        let rest = drop (gpos f) (content f);
            cs = takeWhile (\<lambda>c. c \<noteq> NL) (take (n - 1) rest);
            k = length cs;
            after = drop k rest
        in if after = [] then
             (f\<lparr>gpos := gpos f + k, eofbit := True, failbit := (k = 0)\<rparr>, store_cstr b cs)
           else if hd after = NL then (f\<lparr>gpos := gpos f + k + 1\<rparr>, store_cstr b cs)
           else (f\<lparr>gpos := gpos f + k, failbit := True\<rparr>, store_cstr b cs))"

text \<open>\<open>string::rfind\<close>: the last position where the pattern starts, \<open>None\<close> for \<open>npos\<close>.\<close>

fun rfind_from :: "nat \<Rightarrow> string \<Rightarrow> string \<Rightarrow> nat option" where
  "rfind_from i [] p = (if p = [] then Some i else None)"
| "rfind_from i (c # cs) p =
     (case rfind_from (Suc i) cs p of
        Some j \<Rightarrow> Some j
      | None \<Rightarrow> if take (length p) (c # cs) = p then Some i else None)"

definition rfind :: "string \<Rightarrow> string \<Rightarrow> nat option" where
  "rfind s p = rfind_from 0 s p"

text \<open>\<open>string::find_last_of\<close>: the last position of a character of the given set.\<close>

fun find_last_of_from :: "nat \<Rightarrow> string \<Rightarrow> string \<Rightarrow> nat option" where
  "find_last_of_from i [] cs = None"
| "find_last_of_from i (c # s) cs =
     (case find_last_of_from (Suc i) s cs of
        Some j \<Rightarrow> Some j
      | None \<Rightarrow> if c \<in> set cs then Some i else None)"

definition find_last_of :: "string \<Rightarrow> string \<Rightarrow> nat option" where
  "find_last_of s cs = find_last_of_from 0 s cs"

text \<open>\<open>line.substr(line.find_last_of(" \t") + 1)\<close>; \<open>npos + 1\<close> wraps to \<open>0\<close>.\<close>

definition after_last_blank :: "string \<Rightarrow> string" where
  "after_last_blank line =
     (case find_last_of line [CHR '' '', TAB] of None \<Rightarrow> line | Some i \<Rightarrow> drop (i + 1) line)"

section \<open>TpFanDriver\<close>

text \<open>
  The loop of the constructor. \<open>line\<close> is the buffer of 256 characters that
  \<open>getline\<close> fills; its size never changes, so the searches see all of it.
\<close>

function TpFanDriver_scan :: "istream \<Rightarrow> string \<Rightarrow> string \<Rightarrow> bool \<Rightarrow> string \<times> bool" where
  "TpFanDriver_scan f line initial_state ctrl_supported =
     (if failbit (fst (getline f line 255)) then (initial_state, ctrl_supported)
      else
        let f' = fst (getline f line 255); line' = snd (getline f line 255) in
        if rfind line' ''level:'' \<noteq> None then
          TpFanDriver_scan f' line' (after_last_blank line') ctrl_supported
        else if rfind line' ''commands:'' \<noteq> None \<and> rfind line' ''level <level>'' \<noteq> None then
          TpFanDriver_scan f' line' initial_state True
        else TpFanDriver_scan f' line' initial_state ctrl_supported)"
  by pat_completeness auto
termination
  by (relation "measure (\<lambda>(f, line, i, c).
        2 * (length (content f) - gpos f) + (if eofbit f then 0 else 1))")
     (auto simp: getline_def Let_def good_def split: if_splits)

declare TpFanDriver_scan.simps [simp del]

definition TpFanDriver_ctor :: "string \<Rightarrow> world \<Rightarrow> (error + FanDriver) \<times> world" where
  "TpFanDriver_ctor path w =
     (let d = FanDriver_ctor path 120;
          f = fst (open_in path w); w' = snd (open_in path w)
      in if failbit f then (Inl (IOerror (MSG_FAN_INIT path) (errno w')), w')
         else
           case TpFanDriver_scan f (replicate 256 NUL) (initial_state_f d) False of
             (initial_state, ctrl_supported) \<Rightarrow>
               if \<not> ctrl_supported then (Inl (SystemError MSG_FAN_MODOPTS), w')
               else (Inr (d\<lparr>initial_state_f := initial_state\<rparr>), w'))"

definition TpFanDriver_dtor :: "FanDriver \<Rightarrow> world \<Rightarrow> (error + unit) \<times> world" where
  "TpFanDriver_dtor d w =
     (case write_file (path_f d) (''level '' @ initial_state_f d) w of
        (True, w') \<Rightarrow> (Inr (), w')
      | (False, w') \<Rightarrow> (Inl (IOerror (MSG_FAN_RESET (path_f d)) (errno w')), w'))"

definition TpFanDriver_set_watchdog :: "FanDriver \<Rightarrow> nat \<Rightarrow> FanDriver" where
  "TpFanDriver_set_watchdog d timeout = d\<lparr>watchdog_f := timeout\<rparr>"

definition TpFanDriver_set_depulse :: "FanDriver \<Rightarrow> real \<Rightarrow> FanDriver" where
  "TpFanDriver_set_depulse d duration = d\<lparr>depulse_f := duration\<rparr>"

definition TpFanDriver_set_speed :: "FanDriver \<Rightarrow> Level \<Rightarrow> world \<Rightarrow> (error + FanDriver) \<times> world" where
  "TpFanDriver_set_speed d level w =
     (case FanDriver_set_speed d (str level) w of
        (Inl e, w') \<Rightarrow> (Inl e, w')
      | (Inr u, w') \<Rightarrow> (Inr (d\<lparr>last_watchdog_ping_f := clock w'\<rparr>), w'))"

definition TpFanDriver_ping_watchdog_and_depulse ::
    "FanDriver \<Rightarrow> Level \<Rightarrow> world \<Rightarrow> (error + FanDriver) \<times> world" where
  "TpFanDriver_ping_watchdog_and_depulse d level w =
     (if depulse_f d > 0 then
        (case FanDriver_set_speed d ''level disengaged'' w of
           (Inl e, w1) \<Rightarrow> (Inl e, w1)
         | (Inr u, w1) \<Rightarrow> TpFanDriver_set_speed d level (sleep_for (depulse_f d) w1))
      else if last_watchdog_ping_f d + real (watchdog_f d) + sleeptime w \<ge> clock w then
        TpFanDriver_set_speed d level w
      else (Inr d, w))"

definition TpFanDriver_init :: "FanDriver \<Rightarrow> world \<Rightarrow> (error + unit) \<times> world" where
  "TpFanDriver_init d w =
     (case write_file (path_f d) (''watchdog '' @ to_string_nat (watchdog_f d)) w of
        (True, w') \<Rightarrow> (Inr (), w')
      | (False, w') \<Rightarrow> (Inl (IOerror (MSG_FAN_INIT (path_f d)) (errno w')), w'))"

section \<open>HwmonFanDriver: construction and destruction\<close>

definition HwmonFanDriver_ctor :: "string \<Rightarrow> world \<Rightarrow> (error + FanDriver) \<times> world" where
  "HwmonFanDriver_ctor path w =
     (let d = FanDriver_ctor path 0;
          f = fst (open_in (path @ ''_enable'') w); w' = snd (open_in (path @ ''_enable'') w)
      in if failbit f then (Inl (IOerror (MSG_FAN_INIT path) (errno w')), w')
         else
           case getline f (replicate 64 NUL) 63 of
             (f', line) \<Rightarrow>
               if failbit f' then (Inl (IOerror (MSG_FAN_INIT path) (errno w')), w')
               else (Inr (d\<lparr>initial_state_f := line\<rparr>), w'))"

definition HwmonFanDriver_dtor :: "FanDriver \<Rightarrow> world \<Rightarrow> (error + unit) \<times> world" where
  "HwmonFanDriver_dtor d w =
     (case write_file (path_f d @ ''_enable'') (initial_state_f d) w of
        (True, w') \<Rightarrow> (Inr (), w')
      | (False, w') \<Rightarrow> (Inl (IOerror (MSG_FAN_RESET (path_f d)) (errno w')), w'))"

section \<open>Reading integers\<close>

text \<open>
  \<open>f >> tmp\<close> for an \<open>int\<close>: white space is skipped, then an optional sign and the
  decimal digits are taken. Running into the end of the file sets \<open>eofbit\<close>; no digit at
  all, or a value outside the range of \<open>int\<close>, sets \<open>failbit\<close>. A stream that is not good
  extracts nothing and gets \<open>failbit\<close>. Both callers read \<open>tmp\<close> only after an
  extraction that did not fail, so the value that \<open>tmp\<close> held before is not threaded.
\<close>

definition isspace :: "char \<Rightarrow> bool" where
  "isspace c = (c \<in> set [CHR '' '', TAB, NL, CHR 0x0B, CHR 0x0C, CHR 0x0D])"

definition isdigit :: "char \<Rightarrow> bool" where
  "isdigit c = (c \<in> set ''0123456789'')"

definition digit_val :: "char \<Rightarrow> int" where
  "digit_val c = of_char c - 48"

definition digits_val :: "string \<Rightarrow> int" where
  "digits_val ds = foldl (\<lambda>a c. 10 * a + digit_val c) 0 ds"

definition INT_MAX :: int where "INT_MAX = 2147483647"
definition INT_MIN :: int where "INT_MIN = - 2147483648"

definition extract_int :: "istream \<Rightarrow> istream \<times> cint" where
  "extract_int f =
     (if \<not> good f then (f\<lparr>failbit := True\<rparr>, 0)
      else
        let rest = drop (gpos f) (content f);
            ws = takeWhile isspace rest;
            r1 = dropWhile isspace rest
        in if r1 = [] then
             (f\<lparr>gpos := gpos f + length ws, eofbit := True, failbit := True\<rparr>, 0)
           else
             let negative = (hd r1 = CHR ''-'');
                 signed = (hd r1 = CHR ''-'' \<or> hd r1 = CHR ''+'');
                 r2 = (if signed then tl r1 else r1);
                 ds = takeWhile isdigit r2;
                 r3 = dropWhile isdigit r2;
                 v = (if negative then - digits_val ds else digits_val ds);
                 f' = f\<lparr>gpos := gpos f + length ws + (if signed then 1 else 0) + length ds,
                        eofbit := (r3 = [])\<rparr>
             in if ds = [] then (f'\<lparr>failbit := True\<rparr>, 0)
                else if v < INT_MIN then (f'\<lparr>failbit := True\<rparr>, word_of_int INT_MIN)
                else if INT_MAX < v then (f'\<lparr>failbit := True\<rparr>, word_of_int INT_MAX)
                else (f', word_of_int v))"

text \<open>
  \<open>tellg\<close> and \<open>seekg\<close> (C++11): \<open>tellg\<close> on a stream that is not good sets
  \<open>failbit\<close> and answers \<open>-1\<close>; \<open>seekg\<close> clears \<open>eofbit\<close> first and fails on a
  negative position.
\<close>

definition tellg :: "istream \<Rightarrow> istream \<times> int" where
  "tellg f = (if \<not> good f then (f\<lparr>failbit := True\<rparr>, - 1) else (f, int (gpos f)))"

definition seekg :: "istream \<Rightarrow> int \<Rightarrow> istream" where
  "seekg f p =
     (let f0 = f\<lparr>eofbit := False\<rparr> in
      if failbit f0 then f0
      else if p < 0 then f0\<lparr>failbit := True\<rparr>
      else f0\<lparr>gpos := nat p\<rparr>)"

section \<open>SensorDriver\<close>

text \<open>
  The fields of the sensor classes carry the suffix \<open>s\<close>. \<open>skip_bytes_s\<close> belongs to
  TpSensorDriver only.
\<close>

record SensorDriver =
  path_s :: string
  num_temps_s :: nat
  correction_s :: "cint list"
  skip_bytes_s :: int

text \<open>
  Modelled from the spec: \<open>temp_state.add_temp\<close> is defined outside drivers.cpp. The
  temperature aggregate is an ordered, append-only collection, and \<open>read_temps()\<close>
  appends to it.
\<close>

definition add_temp :: "cint \<Rightarrow> world \<Rightarrow> world" where
  "add_temp t w = w\<lparr>temp_state := temp_state w @ [t]\<rparr>"

text \<open>
  Modelled from the spec: the accessor \<open>num_temps()\<close> is declared in drivers.h, which is
  not among the sources; it reports the channel count that \<open>set_num_temps\<close> stored.
\<close>

definition num_temps :: "SensorDriver \<Rightarrow> nat" where
  "num_temps s = num_temps_s s"

definition SensorDriver_ctor :: "string \<Rightarrow> world \<Rightarrow> (error + SensorDriver) \<times> world" where
  "SensorDriver_ctor path w =
     (let f = fst (open_in path w); w' = snd (open_in path w) in
      if failbit f then (Inl (IOerror (MSG_FAN_INIT path) (errno w')), w')
      else (Inr \<lparr>path_s = path, num_temps_s = 0, correction_s = [], skip_bytes_s = 0\<rparr>, w'))"

definition SensorDriver_set_correction ::
    "SensorDriver \<Rightarrow> cint list \<Rightarrow> world \<Rightarrow> (error + SensorDriver) \<times> world" where
  "SensorDriver_set_correction s correction w =
     (if length correction > num_temps s then
        (Inl (ConfigError (MSG_CONF_CORRECTION_LEN (path_s s) (length correction) (num_temps_s s))), w)
      else
        (Inr (s\<lparr>correction_s := correction\<rparr>),
         if length correction < num_temps s then
           log TF_WRN (MSG_CONF_CORRECTION_LEN (path_s s) (length correction) (num_temps_s s)) w
         else w))"

text \<open>\<open>vector::resize(n, 0)\<close>\<close>

definition resize :: "cint list \<Rightarrow> nat \<Rightarrow> cint \<Rightarrow> cint list" where
  "resize xs n v = take n xs @ replicate (n - length xs) v"

definition SensorDriver_set_num_temps :: "SensorDriver \<Rightarrow> nat \<Rightarrow> SensorDriver" where
  "SensorDriver_set_num_temps s n = s\<lparr>num_temps_s := n, correction_s := resize (correction_s s) n 0\<rparr>"

section \<open>HwmonSensorDriver\<close>

definition HwmonSensorDriver_ctor :: "string \<Rightarrow> world \<Rightarrow> (error + SensorDriver) \<times> world" where
  "HwmonSensorDriver_ctor path w =
     (case SensorDriver_ctor path w of
        (Inl e, w') \<Rightarrow> (Inl e, w')
      | (Inr s, w') \<Rightarrow> (Inr (SensorDriver_set_num_temps s 1), w'))"

text \<open>\<open>tmp/1000\<close> truncates towards zero.\<close>

definition HwmonSensorDriver_read_temps :: "SensorDriver \<Rightarrow> world \<Rightarrow> (error + unit) \<times> world" where
  "HwmonSensorDriver_read_temps s w =
     (let f = fst (open_in (path_s s) w); w' = snd (open_in (path_s s) w) in
      if failbit f then (Inl (IOerror (MSG_T_GET (path_s s)) (errno w')), w')
      else
        case extract_int f of
          (f', tmp) \<Rightarrow>
            if failbit f' then (Inl (IOerror (MSG_T_GET (path_s s)) (errno w')), w')
            else if correction_s s = [] then (Inl OutOfBounds, w')
            else (Inr (), add_temp (word_of_int (sint tmp sdiv 1000) + correction_s s ! 0) w'))"

section \<open>TpSensorDriver\<close>

definition skip_prefix :: string where
  "skip_prefix = ''temperatures:''"

text \<open>An extraction keeps the text and never moves backwards; one that succeeds advances.\<close>

lemma extract_int_content: "content (fst (extract_int f)) = content f"
  by (simp add: extract_int_def Let_def)

lemma extract_int_gpos_le: "gpos f \<le> gpos (fst (extract_int f))"
  by (simp add: extract_int_def Let_def)

lemma length_takeWhile_dropWhile:
  "length (takeWhile P xs) + length (dropWhile P xs) = length xs"
  by (metis length_append takeWhile_dropWhile_id)

lemma extract_int_progress:
  assumes "\<not> eofbit f" "\<not> failbit f" "\<not> failbit (fst (extract_int f))"
  shows "gpos f < gpos (fst (extract_int f)) \<and> gpos (fst (extract_int f)) \<le> length (content f)"
proof -
  define rest where "rest = drop (gpos f) (content f)"
  define ws where "ws = takeWhile isspace rest"
  define r1 where "r1 = dropWhile isspace rest"
  define sg where "sg = (hd r1 = CHR ''-'' \<or> hd r1 = CHR ''+'')"
  define r2 where "r2 = (if sg then tl r1 else r1)"
  define ds where "ds = takeWhile isdigit r2"
  have ne: "r1 \<noteq> []" and ds: "ds \<noteq> []"
    using assms
    by (auto simp: extract_int_def Let_def good_def r1_def rest_def ds_def r2_def sg_def
             split: if_splits)
  have pos: "gpos (fst (extract_int f)) = gpos f + length ws + (if sg then 1 else 0) + length ds"
    using assms ne
    by (auto simp: extract_int_def Let_def good_def r1_def rest_def ds_def r2_def sg_def ws_def
             split: if_splits)
  have l1: "length ws + length r1 = length rest"
    unfolding ws_def r1_def by (rule length_takeWhile_dropWhile)
  have l2: "(if sg then 1 else 0) + length r2 = length r1"
    using ne by (cases r1) (auto simp: r2_def)
  have l3: "length ds \<le> length r2"
    unfolding ds_def by (rule length_takeWhile_le)
  have "rest \<noteq> []" using ne by (auto simp: r1_def)
  then have l4: "gpos f + length rest \<le> length (content f)"
    by (simp add: rest_def)
  from ds have "0 < length ds" by simp
  with pos l1 l2 l3 l4 show ?thesis by (auto split: if_splits)
qed

text \<open>The counting loop of the constructor.\<close>

function TpSensorDriver_count :: "istream \<Rightarrow> nat \<Rightarrow> istream \<times> nat" where
  "TpSensorDriver_count f count =
     (if eofbit f \<or> failbit f then (f, count)
      else if \<not> failbit (fst (extract_int f)) then
        TpSensorDriver_count (fst (extract_int f)) (count + 1)
      else TpSensorDriver_count (fst (extract_int f)) count)"
  by pat_completeness auto
termination
proof (relation "measure (\<lambda>(f, c).
        2 * (length (content f) - gpos f) + (if eofbit f \<or> failbit f then 0 else 1))", goal_cases)
  case 1
  show ?case by simp
next
  case (2 f count)
  then show ?case using extract_int_progress [of f] by (auto simp: extract_int_content)
next
  case (3 f count)
  then show ?case using extract_int_gpos_le [of f] by (auto simp: extract_int_content)
qed

declare TpSensorDriver_count.simps [simp del]

definition TpSensorDriver_ctor :: "string \<Rightarrow> world \<Rightarrow> (error + SensorDriver) \<times> world" where
  "TpSensorDriver_ctor path w =
     (case SensorDriver_ctor path w of
        (Inl e, w1) \<Rightarrow> (Inl e, w1)
      | (Inr s, w1) \<Rightarrow>
          let f = fst (open_in path w1); w2 = snd (open_in path w1) in
          if failbit f then (Inl (IOerror (MSG_SENSOR_INIT path) (errno w2)), w2)
          else
            let f1 = fst (getline f (replicate (length skip_prefix) NUL) (length skip_prefix + 1));
                skip = snd (getline f (replicate (length skip_prefix) NUL) (length skip_prefix + 1));
                f2 = f1\<lparr>failbit := False\<rparr>
            in if skip = skip_prefix then
                 let f3 = fst (tellg f2);
                     s' = s\<lparr>skip_bytes_s := snd (tellg f2)\<rparr>;
                     count = snd (TpSensorDriver_count f3 0)
                 in (Inr (SensorDriver_set_num_temps s' count), w2)
               else (Inl (SystemError (Text (path @ '': Unknown file format.''))), w2))"

text \<open>
  The loop of \<open>read_temps\<close> only stops at the end of the file. It may run forever; then
  the result is \<open>None\<close>. The stream was opened, so \<open>seekg\<close> can only fail on a
  negative offset; the \<open>lseek\<close> behind it then leaves \<open>EINVAL\<close> in \<open>errno\<close>, and
  that is the code the IOerror carries.
\<close>

partial_function (option) TpSensorDriver_read_loop ::
    "istream \<Rightarrow> nat \<Rightarrow> cint list \<Rightarrow> world \<Rightarrow> ((error + unit) \<times> world) option" where
  "TpSensorDriver_read_loop f tidx corr w =
     (if eofbit f then Some (Inr (), w)
      else if \<not> failbit (fst (extract_int f)) then
        (if tidx < length corr then
           TpSensorDriver_read_loop (fst (extract_int f)) (tidx + 1) corr
             (add_temp (snd (extract_int f) + corr ! tidx) w)
         else Some (Inl OutOfBounds, w))
      else TpSensorDriver_read_loop (fst (extract_int f)) tidx corr w)"

definition TpSensorDriver_read_temps ::
    "SensorDriver \<Rightarrow> world \<Rightarrow> ((error + unit) \<times> world) option" where
  "TpSensorDriver_read_temps s w =
     (let f = fst (open_in (path_s s) w); w' = snd (open_in (path_s s) w) in
      if failbit f then Some (Inl (IOerror (MSG_T_GET (path_s s)) (errno w')), w')
      else
        let f1 = seekg f (skip_bytes_s s) in
        if failbit f1 then
          Some (Inl (IOerror (MSG_T_GET (path_s s)) EINVAL), w'\<lparr>errno := EINVAL\<rparr>)
        else TpSensorDriver_read_loop f1 0 (correction_s s) w')"

section \<open>Sensor bindings and the polling cycle\<close>

text \<open>The two bindings that are always compiled, and the virtual call of \<open>read_temps\<close>.\<close>

datatype sensor = HwmonSensor SensorDriver | TpSensor SensorDriver

fun driver :: "sensor \<Rightarrow> SensorDriver" where
  "driver (HwmonSensor s) = s"
| "driver (TpSensor s) = s"

fun read_temps :: "sensor \<Rightarrow> world \<Rightarrow> ((error + unit) \<times> world) option" where
  "read_temps (HwmonSensor s) w = Some (HwmonSensorDriver_read_temps s w)"
| "read_temps (TpSensor s) w = TpSensorDriver_read_temps s w"

text \<open>
  Modelled from the spec: the polling loop is outside drivers.cpp. Once per cycle the
  aggregate is cleared, then \<open>read_temps()\<close> is called on every sensor binding in the
  order of registration; the first error ends the cycle.
\<close>

fun read_all :: "sensor list \<Rightarrow> world \<Rightarrow> ((error + unit) \<times> world) option" where
  "read_all [] w = Some (Inr (), w)"
| "read_all (s # ss) w =
     (case read_temps s w of
        None \<Rightarrow> None
      | Some (Inl e, w') \<Rightarrow> Some (Inl e, w')
      | Some (Inr u, w') \<Rightarrow> read_all ss w')"

definition polling_cycle :: "sensor list \<Rightarrow> world \<Rightarrow> ((error + unit) \<times> world) option" where
  "polling_cycle sensors w = read_all sensors (w\<lparr>temp_state := []\<rparr>)"

section \<open>Sample environments\<close>

definition quiet_world :: world where
  "quiet_world =
     \<lparr>files = (\<lambda>p. Inl 2), wr_script = [], trace = [], clock = 0, errno = 0,
      sleeptime = 5, temp_state = []\<rparr>"

text \<open>What thinkpad_acpi shows in /proc/acpi/ibm/fan.\<close>

definition ibm_fan :: string where
  "ibm_fan =
     ''status:'' @ [TAB, TAB] @ ''enabled'' @ [NL] @
     ''speed:'' @ [TAB, TAB] @ ''3276'' @ [NL] @
     ''level:'' @ [TAB, TAB] @ ''auto'' @ [NL] @
     ''commands:'' @ [TAB] @ ''level <level> (<level> is 0-7, auto, disengaged, full-speed)'' @ [NL] @
     ''commands:'' @ [TAB] @ ''enable, disable'' @ [NL] @
     ''commands:'' @ [TAB] @ ''watchdog <timeout> (<timeout> is 0 (off), 1-120 (seconds))'' @ [NL]"

text \<open>The sample of the spec for /proc/acpi/ibm/thermal, and a hwmon temperature.\<close>

definition thermal_text :: string where
  "thermal_text = ''temperatures: 45 50 0'' @ [NL]"

definition temp1_text :: string where
  "temp1_text = ''43000'' @ [NL]"

definition thinkpad_world :: world where
  "thinkpad_world =
     quiet_world\<lparr>files := (\<lambda>p.
        if p = ''/proc/acpi/ibm/fan'' then Inr ibm_fan
        else if p = ''/proc/acpi/ibm/thermal'' then Inr thermal_text
        else if p = ''/sys/class/hwmon/hwmon0/temp1_input'' then Inr temp1_text
        else if p = ''/sys/class/hwmon/hwmon0/pwm1_enable'' then Inr (''2'' @ [NL])
        else Inl 2)\<rparr>"

text \<open>A world in which one path holds the given text.\<close>

definition world_with :: "string \<Rightarrow> string \<Rightarrow> world" where
  "world_with p c = quiet_world\<lparr>files := (\<lambda>q. if q = p then Inr c else Inl 2)\<rparr>"

text \<open>
  Two status texts in which a line is shorter than the line before it, so that the
  line buffer of the constructor still holds the end of the earlier line.
\<close>

definition stale_blank :: string where
  "stale_blank =
     ''status:'' @ [TAB, TAB] @ ''enabled and then some'' @ [NL] @
     ''level:'' @ [TAB, TAB] @ ''auto'' @ [NL] @
     ''commands:'' @ [TAB] @ ''level <level>'' @ [NL]"

definition stale_token :: string where
  "stale_token =
     ''level:'' @ [TAB, TAB] @ ''auto'' @ [NL] @
     ''supported: level <level>'' @ [NL] @
     ''commands:'' @ [NL]"

text \<open>A thermal file with a token that is not an integer.\<close>

definition garbled_text :: string where
  "garbled_text = ''temperatures: 45 N/A'' @ [NL]"

text \<open>The objects that the constructors build in \<open>thinkpad_world\<close>, and a level.\<close>

definition thinkpad_fan :: FanDriver where
  "thinkpad_fan =
     \<lparr>path_f = ''/proc/acpi/ibm/fan'', watchdog_f = 120, depulse_f = 0,
      initial_state_f = ''auto'' @ [NUL] @ ''led'' @ replicate 240 NUL,
      last_watchdog_ping_f = 0\<rparr>"

definition thermal :: SensorDriver where
  "thermal = \<lparr>path_s = ''/proc/acpi/ibm/thermal'', num_temps_s = 3, correction_s = [0, 0, 0],
      skip_bytes_s = 13\<rparr>"

definition temp1 :: SensorDriver where
  "temp1 = \<lparr>path_s = ''/sys/class/hwmon/hwmon0/temp1_input'', num_temps_s = 1,
      correction_s = [0], skip_bytes_s = 0\<rparr>"

definition pwm1 :: FanDriver where
  "pwm1 = FanDriver_ctor ''/sys/class/hwmon/hwmon0/pwm1'' 0"

definition ibm :: FanDriver where
  "ibm = (FanDriver_ctor ''/proc/acpi/ibm/fan'' 120)\<lparr>initial_state_f := ''auto''\<rparr>"

definition level3 :: Level where
  "level3 = \<lparr>str = ''level 3'', num = 128\<rparr>"

section \<open>The file formats of the kernel interfaces\<close>

text \<open>
  What the spec calls a valid input of a sensor binding. The thermal file begins with
  the prefix \<open>temperatures:\<close>, followed by integers separated by white space, one
  per channel; a hwmon file holds one integer. \<open>ws_tokens\<close> are the maximal runs of
  characters that are not white space; an \<open>int_token\<close> is an optional sign and
  decimal digits, with a value in the range of \<open>int\<close>.
\<close>

function ws_tokens :: "string \<Rightarrow> string list" where
  "ws_tokens s =
     (if dropWhile isspace s = [] then []
      else takeWhile (\<lambda>c. \<not> isspace c) (dropWhile isspace s) #
           ws_tokens (dropWhile (\<lambda>c. \<not> isspace c) (dropWhile isspace s)))"
  by pat_completeness auto
termination
proof (relation "measure length", goal_cases)
  case 1
  show ?case by simp
next
  case (2 s)
  then obtain a r where ar: "dropWhile isspace s = a # r"
    by (cases "dropWhile isspace s") auto
  then have "\<not> isspace a"
    using hd_dropWhile [of isspace s] by simp
  then have "length (dropWhile (\<lambda>c. \<not> isspace c) (a # r)) \<le> length r"
    by (simp add: length_dropWhile_le)
  moreover have "length (a # r) \<le> length s"
    using length_dropWhile_le [of isspace s] by (simp add: ar)
  ultimately show ?case by (simp add: ar)
qed
declare ws_tokens.simps [simp del]

definition token_value :: "string \<Rightarrow> int" where
  "token_value t =
     (if hd t = CHR ''-'' then - digits_val (tl t)
      else if hd t = CHR ''+'' then digits_val (tl t)
      else digits_val t)"

definition int_token :: "string \<Rightarrow> bool" where
  "int_token t =
     (let ds = (if hd t = CHR ''-'' \<or> hd t = CHR ''+'' then tl t else t)
      in t \<noteq> [] \<and> ds \<noteq> [] \<and> list_all isdigit ds \<and>
         INT_MIN \<le> token_value t \<and> token_value t \<le> INT_MAX)"

definition thermal_tokens :: "string \<Rightarrow> string list" where
  "thermal_tokens c = ws_tokens (drop (length skip_prefix) c)"

definition thermal_format :: "string \<Rightarrow> bool" where
  "thermal_format c =
     (take (length skip_prefix) c = skip_prefix \<and> length skip_prefix < length c \<and>
      list_all int_token (thermal_tokens c))"

definition hwmon_format :: "string \<Rightarrow> bool" where
  "hwmon_format c = (ws_tokens c \<noteq> [] \<and> int_token (hd (ws_tokens c)))"

fun file_format :: "sensor \<Rightarrow> string \<Rightarrow> bool" where
  "file_format (HwmonSensor s) c = hwmon_format c"
| "file_format (TpSensor s) c = thermal_format c"

definition valid_input :: "sensor \<Rightarrow> world \<Rightarrow> bool" where
  "valid_input b w =
     (case files w (path_s (driver b)) of Inl e \<Rightarrow> False | Inr c \<Rightarrow> file_format b c)"

text \<open>
  The raw readings of a thermal file, each with the offset at its position.
\<close>

definition corrected :: "string list \<Rightarrow> cint list \<Rightarrow> cint list" where
  "corrected ts corr = map (\<lambda>(t, off). word_of_int (token_value t) + off) (zip ts corr)"

text \<open>
  A binding is registered in a world when it is what its constructor builds from the
  files of that world, with a correction vector of full length put in place of the
  zeros of the constructor.
\<close>

fun construct :: "sensor \<Rightarrow> world \<Rightarrow> (error + SensorDriver) \<times> world" where
  "construct (HwmonSensor s) w = HwmonSensorDriver_ctor (path_s s) w"
| "construct (TpSensor s) w = TpSensorDriver_ctor (path_s s) w"

definition registered :: "sensor \<Rightarrow> world \<Rightarrow> bool" where
  "registered b w =
     (case fst (construct b w) of
        Inl e \<Rightarrow> False
      | Inr s0 \<Rightarrow> driver b = s0\<lparr>correction_s := correction_s (driver b)\<rparr> \<and>
                 length (correction_s (driver b)) = num_temps s0)"

text \<open>
  The values that one \<open>read_temps()\<close> is to append for a binding, given the text of
  its file: the single hwmon reading in whole degrees plus the offset, or the readings of
  the thermal file, each plus its offset.
\<close>

fun readings :: "sensor \<Rightarrow> string \<Rightarrow> cint list" where
  "readings (HwmonSensor s) c =
     [word_of_int (sint (word_of_int (token_value (hd (ws_tokens c))) :: cint) sdiv 1000)
      + correction_s s ! 0]"
| "readings (TpSensor s) c = corrected (thermal_tokens c) (correction_s s)"

definition file_readings :: "sensor \<Rightarrow> world \<Rightarrow> cint list" where
  "file_readings b w =
     (case files w (path_s (driver b)) of Inl e \<Rightarrow> [] | Inr c \<Rightarrow> readings b c)"

text \<open>
  The lines of a status text, and whether one of them holds both \<open>commands:\<close> and
  the token \<open>level <level>\<close>.
\<close>

fun split_lines :: "string \<Rightarrow> string \<Rightarrow> string list" where
  "split_lines cur [] = (if cur = [] then [] else [cur])"
| "split_lines cur (c # cs) =
     (if c = NL then cur # split_lines [] cs else split_lines (cur @ [c]) cs)"

definition commands_line_with_token :: "string \<Rightarrow> bool" where
  "commands_line_with_token text =
     list_ex (\<lambda>l. rfind l ''commands:'' \<noteq> None \<and> rfind l ''level <level>'' \<noteq> None)
       (split_lines [] text)"

text \<open>
  The level that a status text shows: what follows the last blank on its \<open>level:\<close>
  line (the last such line, should there be several).
\<close>

definition observed_level :: "string \<Rightarrow> string" where
  "observed_level text =
     (case filter (\<lambda>l. rfind l ''level:'' \<noteq> None) (split_lines [] text) of
        [] \<Rightarrow> []
      | l # ls \<Rightarrow> after_last_blank (last (l # ls)))"

section \<open>Notions for stating the behaviour of the fan drivers\<close>

text \<open>The exception that \<open>FanDriver::set_speed\<close> throws for a given errno.\<close>

definition set_speed_error :: "FanDriver \<Rightarrow> string \<Rightarrow> int \<Rightarrow> error" where
  "set_speed_error d level e =
     (if e = EPERM then SystemError (MSG_FAN_EPERM (path_f d))
      else IOerror (MSG_FAN_CTRL level (path_f d)) e)"

text \<open>
  A history of \<open>set_speed\<close> calls on a TpFanDriver whose caller carries on after a
  failure: a call that throws leaves the object as it was.
\<close>

fun TpFanDriver_calls :: "FanDriver \<Rightarrow> Level list \<Rightarrow> world \<Rightarrow> FanDriver \<times> world" where
  "TpFanDriver_calls d [] w = (d, w)"
| "TpFanDriver_calls d (l # ls) w =
     (case TpFanDriver_set_speed d l w of
        (Inl e, w') \<Rightarrow> TpFanDriver_calls d ls w'
      | (Inr d', w') \<Rightarrow> TpFanDriver_calls d' ls w')"

declare TpSensorDriver_read_loop.simps [code]

section \<open>Writes and their outcomes\<close>

lemma script_at_tl [simp]: "script_at (tl rs) k = script_at rs (Suc k)"
  by (cases rs) (auto simp: script_at_def)

lemma write_file_outcome:
  "write_file p s w =
     (outcome w 0 = None,
      w\<lparr>wr_script := tl (wr_script w), trace := trace w @ [Write p s (outcome w 0)],
        errno := (case outcome w 0 of None \<Rightarrow> errno w | Some e \<Rightarrow> e)\<rparr>)"
  by (cases "wr_script w")
     (auto simp: write_file_def outcome_def script_at_def split: option.splits list.splits)

lemma outcome_log [simp]: "outcome (log l m w) k = outcome w k"
  by (simp add: outcome_def log_def)

lemma outcome_sleep_for [simp]: "outcome (sleep_for t w) k = outcome w k"
  by (simp add: outcome_def sleep_for_def)

lemma FanDriver_set_speed_outcome:
  "FanDriver_set_speed d level w =
     ((case outcome w 0 of None \<Rightarrow> Inr () | Some e \<Rightarrow> Inl (set_speed_error d level e)),
      w\<lparr>wr_script := tl (wr_script w), trace := trace w @ [Write (path_f d) level (outcome w 0)],
        errno := (case outcome w 0 of None \<Rightarrow> errno w | Some e \<Rightarrow> e)\<rparr>)"
  by (auto simp: FanDriver_set_speed_def write_file_outcome set_speed_error_def Let_def
           split: option.splits)

lemma HwmonFanDriver_init_outcome:
  "HwmonFanDriver_init d w =
     ((case outcome w 0 of None \<Rightarrow> Inr () | Some e \<Rightarrow> Inl (IOerror (MSG_FAN_INIT (path_f d)) e)),
      w\<lparr>wr_script := tl (wr_script w),
        trace := trace w @ [Write (path_f d @ ''_enable'') ''1'' (outcome w 0)],
        errno := (case outcome w 0 of None \<Rightarrow> errno w | Some e \<Rightarrow> e)\<rparr>)"
  by (auto simp: HwmonFanDriver_init_def write_file_outcome split: option.splits)

lemma TpFanDriver_set_speed_outcome:
  "TpFanDriver_set_speed d level w =
     ((case outcome w 0 of None \<Rightarrow> Inr (d\<lparr>last_watchdog_ping_f := clock w\<rparr>)
       | Some e \<Rightarrow> Inl (set_speed_error d (str level) e)),
      w\<lparr>wr_script := tl (wr_script w),
        trace := trace w @ [Write (path_f d) (str level) (outcome w 0)],
        errno := (case outcome w 0 of None \<Rightarrow> errno w | Some e \<Rightarrow> e)\<rparr>)"
  by (auto simp: TpFanDriver_set_speed_def FanDriver_set_speed_outcome split: option.splits)

lemma TpFanDriver_dtor_outcome:
  "TpFanDriver_dtor d w =
     ((case outcome w 0 of None \<Rightarrow> Inr () | Some e \<Rightarrow> Inl (IOerror (MSG_FAN_RESET (path_f d)) e)),
      w\<lparr>wr_script := tl (wr_script w),
        trace := trace w @ [Write (path_f d) (''level '' @ initial_state_f d) (outcome w 0)],
        errno := (case outcome w 0 of None \<Rightarrow> errno w | Some e \<Rightarrow> e)\<rparr>)"
  by (auto simp: TpFanDriver_dtor_def write_file_outcome split: option.splits)

lemma TpFanDriver_init_outcome:
  "TpFanDriver_init d w =
     ((case outcome w 0 of None \<Rightarrow> Inr () | Some e \<Rightarrow> Inl (IOerror (MSG_FAN_INIT (path_f d)) e)),
      w\<lparr>wr_script := tl (wr_script w),
        trace := trace w @ [Write (path_f d) (''watchdog '' @ to_string_nat (watchdog_f d)) (outcome w 0)],
        errno := (case outcome w 0 of None \<Rightarrow> errno w | Some e \<Rightarrow> e)\<rparr>)"
  by (auto simp: TpFanDriver_init_def write_file_outcome split: option.splits)

lemma to_string_nat_120: "to_string_nat 120 = ''120''"
  by (simp add: to_string_nat.simps)

lemma to_string_128: "to_string 128 = ''128''"
  by (simp add: to_string_def to_string_nat.simps)

lemmas sample_defs = pwm1_def ibm_def level3_def FanDriver_ctor_def quiet_world_def
  outcome_def script_at_def EPERM_def EINVAL_def EACCES_def

section \<open>FanDriver::set_speed\<close>

text \<open>
  Claim C5, as the code has it. A write that fails with errno \<open>EPERM\<close> ("operation not
  permitted") makes \<open>FanDriver::set_speed\<close> throw a SystemError whose message is
  built from the path; a write that fails with any other errno makes it throw an IOerror
  that carries that errno; a write that succeeds returns. In every case exactly one write
  of the given text to the path is attempted.
\<close>

theorem FanDriver_set_speed_classification:
  "(outcome w 0 = None \<longrightarrow> fst (FanDriver_set_speed d level w) = Inr ()) \<and>
   (outcome w 0 = Some EPERM \<longrightarrow>
      fst (FanDriver_set_speed d level w) = Inl (SystemError (MSG_FAN_EPERM (path_f d)))) \<and>
   (\<forall>e. outcome w 0 = Some e \<and> e \<noteq> EPERM \<longrightarrow>
      fst (FanDriver_set_speed d level w) = Inl (IOerror (MSG_FAN_CTRL level (path_f d)) e)) \<and>
   trace (snd (FanDriver_set_speed d level w)) = trace w @ [Write (path_f d) level (outcome w 0)]"
  by (auto simp: FanDriver_set_speed_outcome set_speed_error_def)

text \<open>Instances of the classification: \<open>EPERM\<close>, \<open>EINVAL\<close>, and success.\<close>

theorem FanDriver_set_speed_classification_witness:
  "fst (FanDriver_set_speed ibm ''level 3'' (quiet_world\<lparr>wr_script := [Some EPERM]\<rparr>)) =
     Inl (SystemError (MSG_FAN_EPERM ''/proc/acpi/ibm/fan'')) \<and>
   fst (FanDriver_set_speed ibm ''level 3'' (quiet_world\<lparr>wr_script := [Some EINVAL]\<rparr>)) =
     Inl (IOerror (MSG_FAN_CTRL ''level 3'' ''/proc/acpi/ibm/fan'') EINVAL) \<and>
   fst (FanDriver_set_speed ibm ''level 3'' quiet_world) = Inr ()"
  using FanDriver_set_speed_classification [of "quiet_world\<lparr>wr_script := [Some EPERM]\<rparr>" ibm "''level 3''"]
    FanDriver_set_speed_classification [of "quiet_world\<lparr>wr_script := [Some EINVAL]\<rparr>" ibm "''level 3''"]
    FanDriver_set_speed_classification [of quiet_world ibm "''level 3''"]
  by (simp add: sample_defs)

text \<open>
  Claim C5 as it is worded names the OS error "permission denied". That is the text of
  \<open>EACCES\<close> (13); the code tests \<open>EPERM\<close> (1) only, so a write refused with
  \<open>EACCES\<close> is reported as an IOerror carrying 13, not as a SystemError.
\<close>

theorem FanDriver_set_speed_EACCES:
  "fst (FanDriver_set_speed ibm ''level 3'' (quiet_world\<lparr>wr_script := [Some EACCES]\<rparr>)) =
     Inl (IOerror (MSG_FAN_CTRL ''level 3'' ''/proc/acpi/ibm/fan'') 13)"
  by (simp add: FanDriver_set_speed_def write_file_def sample_defs)

section \<open>HwmonFanDriver::set_speed\<close>

text \<open>
  Claim C2, as the code has it. When the write of \<open>level.num()\<close> fails with
  \<open>EINVAL\<close>, \<open>init()\<close> is called exactly once. If \<open>init()\<close> succeeds, the write is
  tried exactly once more, and whatever that second attempt yields is the result: success
  (with a debug message logged) or the exception of \<open>FanDriver::set_speed\<close>, with no
  further attempt. If \<open>init()\<close> fails, its IOerror is the result and nothing is
  written again. A first write that fails with another errno is not retried, and the
  exception of \<open>FanDriver::set_speed\<close> for that errno propagates: an IOerror, or a
  SystemError when the errno is \<open>EPERM\<close>.
\<close>

theorem HwmonFanDriver_set_speed_recovery:
  fixes d :: FanDriver and level :: Level and w :: world
  shows
  "(outcome w 0 = Some EINVAL \<and> outcome w 1 = None \<longrightarrow>
      trace (snd (HwmonFanDriver_set_speed d level w)) =
        trace w @ [Write (path_f d) (to_string (num level)) (Some EINVAL),
                   Write (path_f d @ ''_enable'') ''1'' None,
                   Write (path_f d) (to_string (num level)) (outcome w 2)] @
                  (if outcome w 2 = None then [Log TF_DBG suspend_msg] else []) \<and>
      fst (HwmonFanDriver_set_speed d level w) =
        (case outcome w 2 of None \<Rightarrow> Inr ()
         | Some e \<Rightarrow> Inl (set_speed_error d (to_string (num level)) e))) \<and>
   (\<forall>e. outcome w 0 = Some EINVAL \<and> outcome w 1 = Some e \<longrightarrow>
      trace (snd (HwmonFanDriver_set_speed d level w)) =
        trace w @ [Write (path_f d) (to_string (num level)) (Some EINVAL),
                   Write (path_f d @ ''_enable'') ''1'' (Some e)] \<and>
      fst (HwmonFanDriver_set_speed d level w) = Inl (IOerror (MSG_FAN_INIT (path_f d)) e)) \<and>
   (\<forall>e. outcome w 0 = Some e \<and> e \<noteq> EINVAL \<longrightarrow>
      trace (snd (HwmonFanDriver_set_speed d level w)) =
        trace w @ [Write (path_f d) (to_string (num level)) (Some e)] \<and>
      fst (HwmonFanDriver_set_speed d level w) = Inl (set_speed_error d (to_string (num level)) e)) \<and>
   (outcome w 0 = None \<longrightarrow>
      trace (snd (HwmonFanDriver_set_speed d level w)) =
        trace w @ [Write (path_f d) (to_string (num level)) None] \<and>
      fst (HwmonFanDriver_set_speed d level w) = Inr ())"
  by (auto simp: HwmonFanDriver_set_speed_def FanDriver_set_speed_outcome
        HwmonFanDriver_init_outcome set_speed_error_def EINVAL_def EPERM_def log_def
        outcome_def numeral_2_eq_2
      split: option.splits)

text \<open>
  Instances: a recovery, a second failure in a row, a failing \<open>init()\<close>, another
  errno, and a write that succeeds at once.
\<close>

theorem HwmonFanDriver_set_speed_recovery_witness:
  "trace (snd (HwmonFanDriver_set_speed pwm1 level3
      (quiet_world\<lparr>wr_script := [Some EINVAL, None, None]\<rparr>))) =
     [Write ''/sys/class/hwmon/hwmon0/pwm1'' ''128'' (Some EINVAL),
      Write ''/sys/class/hwmon/hwmon0/pwm1_enable'' ''1'' None,
      Write ''/sys/class/hwmon/hwmon0/pwm1'' ''128'' None,
      Log TF_DBG suspend_msg] \<and>
   fst (HwmonFanDriver_set_speed pwm1 level3
      (quiet_world\<lparr>wr_script := [Some EINVAL, None, Some EINVAL, None]\<rparr>)) =
     Inl (IOerror (MSG_FAN_CTRL ''128'' ''/sys/class/hwmon/hwmon0/pwm1'') EINVAL) \<and>
   trace (snd (HwmonFanDriver_set_speed pwm1 level3
      (quiet_world\<lparr>wr_script := [Some EINVAL, None, Some EINVAL, None]\<rparr>))) =
     [Write ''/sys/class/hwmon/hwmon0/pwm1'' ''128'' (Some EINVAL),
      Write ''/sys/class/hwmon/hwmon0/pwm1_enable'' ''1'' None,
      Write ''/sys/class/hwmon/hwmon0/pwm1'' ''128'' (Some EINVAL)] \<and>
   fst (HwmonFanDriver_set_speed pwm1 level3
      (quiet_world\<lparr>wr_script := [Some EINVAL, Some 5]\<rparr>)) =
     Inl (IOerror (MSG_FAN_INIT ''/sys/class/hwmon/hwmon0/pwm1'') 5) \<and>
   fst (HwmonFanDriver_set_speed pwm1 level3 (quiet_world\<lparr>wr_script := [Some 5, None]\<rparr>)) =
     Inl (IOerror (MSG_FAN_CTRL ''128'' ''/sys/class/hwmon/hwmon0/pwm1'') 5) \<and>
   trace (snd (HwmonFanDriver_set_speed pwm1 level3 (quiet_world\<lparr>wr_script := [Some 5, None]\<rparr>))) =
     [Write ''/sys/class/hwmon/hwmon0/pwm1'' ''128'' (Some 5)] \<and>
   fst (HwmonFanDriver_set_speed pwm1 level3 quiet_world) = Inr ()"
  using
    HwmonFanDriver_set_speed_recovery [of "quiet_world\<lparr>wr_script := [Some EINVAL, None, None]\<rparr>" pwm1 level3]
    HwmonFanDriver_set_speed_recovery [of "quiet_world\<lparr>wr_script := [Some EINVAL, None, Some EINVAL, None]\<rparr>" pwm1 level3]
    HwmonFanDriver_set_speed_recovery [of "quiet_world\<lparr>wr_script := [Some EINVAL, Some 5]\<rparr>" pwm1 level3]
    HwmonFanDriver_set_speed_recovery [of "quiet_world\<lparr>wr_script := [Some 5, None]\<rparr>" pwm1 level3]
    HwmonFanDriver_set_speed_recovery [of quiet_world pwm1 level3]
  by (simp add: sample_defs set_speed_error_def to_string_128 numeral_2_eq_2)

text \<open>
  Claim C2 as it is worded says that a failure with any OS error other than "invalid
  argument" propagates as an IOerror. With \<open>EPERM\<close> it propagates as a SystemError.
\<close>

theorem HwmonFanDriver_set_speed_EPERM:
  "EPERM \<noteq> EINVAL \<and>
   HwmonFanDriver_set_speed pwm1 level3 (quiet_world\<lparr>wr_script := [Some EPERM]\<rparr>) =
     (Inl (SystemError (MSG_FAN_EPERM ''/sys/class/hwmon/hwmon0/pwm1'')),
      quiet_world\<lparr>trace := [Write ''/sys/class/hwmon/hwmon0/pwm1'' ''128'' (Some EPERM)],
        errno := EPERM\<rparr>)"
  by (simp add: HwmonFanDriver_set_speed_def FanDriver_set_speed_def write_file_def sample_defs
        to_string_128)

section \<open>TpFanDriver::ping_watchdog_and_depulse\<close>

text \<open>
  Claim C3, as the code has it. With a depulse interval greater than zero the text
  \<open>level disengaged\<close> is written; if that write fails its exception propagates and
  nothing else happens; otherwise the thread sleeps for the depulse interval and
  \<open>set_speed(level)\<close> follows. Neither the trace nor the result depends on the
  watchdog deadline. With a depulse interval of zero (or less) the only write is that of
  \<open>set_speed(level)\<close>, and it is issued if and only if the last successful write
  plus the watchdog timeout plus one polling period is not earlier than now: the
  comparison is \<open>\<ge>\<close>, so the deadline itself still counts. Otherwise nothing is
  written.
\<close>

theorem TpFanDriver_ping_paths:
  "(0 < depulse_f d \<and> outcome w 0 = None \<longrightarrow>
      trace (snd (TpFanDriver_ping_watchdog_and_depulse d level w)) =
        trace w @ [Write (path_f d) ''level disengaged'' None, SleepFor (depulse_f d),
                   Write (path_f d) (str level) (outcome w 1)] \<and>
      fst (TpFanDriver_ping_watchdog_and_depulse d level w) =
        (case outcome w 1 of
           None \<Rightarrow> Inr (d\<lparr>last_watchdog_ping_f := clock w + depulse_f d\<rparr>)
         | Some e \<Rightarrow> Inl (set_speed_error d (str level) e))) \<and>
   (\<forall>e. 0 < depulse_f d \<and> outcome w 0 = Some e \<longrightarrow>
      trace (snd (TpFanDriver_ping_watchdog_and_depulse d level w)) =
        trace w @ [Write (path_f d) ''level disengaged'' (Some e)] \<and>
      fst (TpFanDriver_ping_watchdog_and_depulse d level w) =
        Inl (set_speed_error d ''level disengaged'' e)) \<and>
   (depulse_f d \<le> 0 \<and> clock w \<le> last_watchdog_ping_f d + real (watchdog_f d) + sleeptime w \<longrightarrow>
      trace (snd (TpFanDriver_ping_watchdog_and_depulse d level w)) =
        trace w @ [Write (path_f d) (str level) (outcome w 0)] \<and>
      fst (TpFanDriver_ping_watchdog_and_depulse d level w) =
        (case outcome w 0 of
           None \<Rightarrow> Inr (d\<lparr>last_watchdog_ping_f := clock w\<rparr>)
         | Some e \<Rightarrow> Inl (set_speed_error d (str level) e))) \<and>
   (depulse_f d \<le> 0 \<and> last_watchdog_ping_f d + real (watchdog_f d) + sleeptime w < clock w \<longrightarrow>
      TpFanDriver_ping_watchdog_and_depulse d level w = (Inr d, w))"
  by (auto simp: TpFanDriver_ping_watchdog_and_depulse_def FanDriver_set_speed_outcome
        TpFanDriver_set_speed_outcome sleep_for_def outcome_def
      split: option.splits)

text \<open>Instances of the four cases.\<close>

theorem TpFanDriver_ping_paths_witness:
  "trace (snd (TpFanDriver_ping_watchdog_and_depulse (ibm\<lparr>depulse_f := 0.5\<rparr>) level3 quiet_world)) =
     [Write ''/proc/acpi/ibm/fan'' ''level disengaged'' None, SleepFor 0.5,
      Write ''/proc/acpi/ibm/fan'' ''level 3'' None] \<and>
   fst (TpFanDriver_ping_watchdog_and_depulse (ibm\<lparr>depulse_f := 0.5\<rparr>) level3 quiet_world) =
     Inr (ibm\<lparr>depulse_f := 0.5, last_watchdog_ping_f := 0.5\<rparr>) \<and>
   trace (snd (TpFanDriver_ping_watchdog_and_depulse (ibm\<lparr>depulse_f := 0.5\<rparr>) level3
      (quiet_world\<lparr>wr_script := [Some 5]\<rparr>))) =
     [Write ''/proc/acpi/ibm/fan'' ''level disengaged'' (Some 5)] \<and>
   trace (snd (TpFanDriver_ping_watchdog_and_depulse ibm level3 (quiet_world\<lparr>clock := 100\<rparr>))) =
     [Write ''/proc/acpi/ibm/fan'' ''level 3'' None] \<and>
   TpFanDriver_ping_watchdog_and_depulse ibm level3 (quiet_world\<lparr>clock := 126\<rparr>) =
     (Inr ibm, quiet_world\<lparr>clock := 126\<rparr>)"
  using
    TpFanDriver_ping_paths [of "ibm\<lparr>depulse_f := 0.5\<rparr>" quiet_world level3]
    TpFanDriver_ping_paths [of "ibm\<lparr>depulse_f := 0.5\<rparr>" "quiet_world\<lparr>wr_script := [Some 5]\<rparr>" level3]
    TpFanDriver_ping_paths [of ibm "quiet_world\<lparr>clock := 100\<rparr>" level3]
    TpFanDriver_ping_paths [of ibm "quiet_world\<lparr>clock := 126\<rparr>" level3]
  by (simp add: sample_defs)

text \<open>
  Claim C3 as it is worded re-issues \<open>set_speed\<close> only while the deadline is still
  in the future. At the deadline itself (last write at 0, timeout 120 s, period 5 s, now
  125 s) the deadline is not in the future, and \<open>set_speed\<close> is issued all the same.
\<close>

theorem TpFanDriver_ping_at_deadline:
  "\<not> clock (quiet_world\<lparr>clock := 125\<rparr>)
       < last_watchdog_ping_f ibm + real (watchdog_f ibm) + sleeptime (quiet_world\<lparr>clock := 125\<rparr>) \<and>
   depulse_f ibm = 0 \<and>
   trace (snd (TpFanDriver_ping_watchdog_and_depulse ibm level3 (quiet_world\<lparr>clock := 125\<rparr>))) =
     [Write ''/proc/acpi/ibm/fan'' ''level 3'' None]"
  by (simp add: TpFanDriver_ping_watchdog_and_depulse_def TpFanDriver_set_speed_def
        FanDriver_set_speed_def write_file_def sample_defs)

section \<open>The default watchdog timeout\<close>

lemma TpFanDriver_ctor_fields:
  "fst (TpFanDriver_ctor path w) = Inr d \<Longrightarrow>
     path_f d = path \<and> watchdog_f d = 120 \<and> depulse_f d = 0 \<and> last_watchdog_ping_f d = 0"
  by (auto simp: TpFanDriver_ctor_def FanDriver_ctor_def Let_def split: if_splits prod.splits)

lemma HwmonFanDriver_ctor_fields:
  "fst (HwmonFanDriver_ctor path w) = Inr d \<Longrightarrow>
     path_f d = path \<and> watchdog_f d = 0 \<and> depulse_f d = 0"
  by (auto simp: HwmonFanDriver_ctor_def FanDriver_ctor_def Let_def split: if_splits prod.splits)

text \<open>
  Claim C10. A TpFanDriver that was constructed has a watchdog timeout of 120 seconds:
  \<open>init()\<close> writes \<open>watchdog 120\<close> to the control path, and the deadline of the
  watchdog ping is the time of the last write plus 120 seconds plus the polling period.
  A HwmonFanDriver that was constructed has a watchdog timeout of 0.
\<close>

theorem default_watchdog_timeout:
  "(fst (TpFanDriver_ctor path w) = Inr d \<longrightarrow>
      watchdog_f d = 120 \<and>
      trace (snd (TpFanDriver_init d w')) =
        trace w' @ [Write path ''watchdog 120'' (outcome w' 0)] \<and>
      (\<forall>t. trace (snd (TpFanDriver_ping_watchdog_and_depulse (d\<lparr>last_watchdog_ping_f := t\<rparr>) level w')) =
        trace w' @ (if clock w' \<le> t + 120 + sleeptime w'
                    then [Write path (str level) (outcome w' 0)] else []))) \<and>
   (fst (HwmonFanDriver_ctor path w) = Inr h \<longrightarrow> watchdog_f h = 0)"
proof (intro conjI impI)
  assume c: "fst (TpFanDriver_ctor path w) = Inr d"
  note f = TpFanDriver_ctor_fields [OF c]
  from f show "watchdog_f d = 120" by simp
  from f show "trace (snd (TpFanDriver_init d w')) =
        trace w' @ [Write path ''watchdog 120'' (outcome w' 0)]"
    by (simp add: TpFanDriver_init_outcome to_string_nat_120)
  from f show "\<forall>t. trace (snd (TpFanDriver_ping_watchdog_and_depulse (d\<lparr>last_watchdog_ping_f := t\<rparr>) level w')) =
        trace w' @ (if clock w' \<le> t + 120 + sleeptime w'
                    then [Write path (str level) (outcome w' 0)] else [])"
    by (simp add: TpFanDriver_ping_watchdog_and_depulse_def TpFanDriver_set_speed_outcome)
next
  assume "fst (HwmonFanDriver_ctor path w) = Inr h"
  from HwmonFanDriver_ctor_fields [OF this] show "watchdog_f h = 0" by simp
qed

text \<open>The constructors on the files of \<open>thinkpad_world\<close>.\<close>

lemma TpFanDriver_ctor_thinkpad:
  "fst (TpFanDriver_ctor ''/proc/acpi/ibm/fan'' thinkpad_world) = Inr thinkpad_fan"
  by code_simp

lemma HwmonFanDriver_ctor_pwm1:
  "fst (HwmonFanDriver_ctor ''/sys/class/hwmon/hwmon0/pwm1'' thinkpad_world) =
     Inr (pwm1\<lparr>initial_state_f := ''2'' @ replicate 63 NUL\<rparr>)"
  by code_simp

text \<open>An instance: the drivers built from the files of \<open>thinkpad_world\<close>.\<close>

theorem default_watchdog_timeout_witness:
  "fst (TpFanDriver_ctor ''/proc/acpi/ibm/fan'' thinkpad_world) = Inr thinkpad_fan \<and>
   watchdog_f thinkpad_fan = 120 \<and>
   trace (snd (TpFanDriver_init thinkpad_fan quiet_world)) =
     [Write ''/proc/acpi/ibm/fan'' ''watchdog 120'' None] \<and>
   trace (snd (TpFanDriver_ping_watchdog_and_depulse (thinkpad_fan\<lparr>last_watchdog_ping_f := 10\<rparr>)
      level3 (quiet_world\<lparr>clock := 135\<rparr>))) = [Write ''/proc/acpi/ibm/fan'' ''level 3'' None] \<and>
   trace (snd (TpFanDriver_ping_watchdog_and_depulse (thinkpad_fan\<lparr>last_watchdog_ping_f := 10\<rparr>)
      level3 (quiet_world\<lparr>clock := 136\<rparr>))) = [] \<and>
   fst (HwmonFanDriver_ctor ''/sys/class/hwmon/hwmon0/pwm1'' thinkpad_world) =
     Inr (pwm1\<lparr>initial_state_f := ''2'' @ replicate 63 NUL\<rparr>) \<and>
   watchdog_f (pwm1\<lparr>initial_state_f := ''2'' @ replicate 63 NUL\<rparr>) = 0"
  using
    default_watchdog_timeout [where path = "''/proc/acpi/ibm/fan''" and w = thinkpad_world
      and d = thinkpad_fan and w' = quiet_world and level = level3]
    default_watchdog_timeout [where path = "''/proc/acpi/ibm/fan''" and w = thinkpad_world
      and d = thinkpad_fan and w' = "quiet_world\<lparr>clock := 135\<rparr>" and level = level3]
    default_watchdog_timeout [where path = "''/proc/acpi/ibm/fan''" and w = thinkpad_world
      and d = thinkpad_fan and w' = "quiet_world\<lparr>clock := 136\<rparr>" and level = level3]
    default_watchdog_timeout [where path = "''/sys/class/hwmon/hwmon0/pwm1''" and w = thinkpad_world
      and h = "pwm1\<lparr>initial_state_f := ''2'' @ replicate 63 NUL\<rparr>"]
  by (simp add: TpFanDriver_ctor_thinkpad HwmonFanDriver_ctor_pwm1)
     (simp add: quiet_world_def outcome_def script_at_def level3_def)

section \<open>TpFanDriver: construction\<close>

lemma TpFanDriver_ctor_stale_blank:
  "map_sum id (\<lambda>d. take 5 (initial_state_f d))
     (fst (TpFanDriver_ctor ''/proc/acpi/ibm/fan'' (world_with ''/proc/acpi/ibm/fan'' stale_blank))) =
   Inr (''some'' @ [NUL])"
  by code_simp

lemma TpFanDriver_ctor_stale_token:
  "\<not> commands_line_with_token stale_token \<and>
   \<not> isl (fst (TpFanDriver_ctor ''/proc/acpi/ibm/fan'' (world_with ''/proc/acpi/ibm/fan'' stale_token)))"
  by code_simp

text \<open>
  Claim C6 says that construction fails exactly when no commands line holds the token
  \<open>level <level>\<close>, and that it remembers the value of the \<open>level:\<close> line. The
  constructor reads each line into a buffer of 256 characters and never cuts the buffer
  to the length of the line, so the searches and the remembered state take in whatever
  earlier, longer lines left behind. On the status text of thinkpad_acpi the remembered
  state is not \<open>auto\<close> but the 248 characters \<open>auto\<close>, NUL, \<open>led\<close> (the end of
  \<open>enabled\<close>) and NULs, and the destructor writes all of them. On \<open>stale_blank\<close>
  the remembered state begins with \<open>some\<close>, the end of the status line, instead of
  \<open>auto\<close>. On \<open>stale_token\<close> no line holds both \<open>commands:\<close> and the token, and
  construction succeeds.
\<close>

theorem TpFanDriver_ctor_remembers_buffer_tail:
  "fst (TpFanDriver_ctor ''/proc/acpi/ibm/fan'' thinkpad_world) = Inr thinkpad_fan \<and>
   initial_state_f thinkpad_fan = ''auto'' @ [NUL] @ ''led'' @ replicate 240 NUL \<and>
   initial_state_f thinkpad_fan \<noteq> ''auto'' \<and>
   trace (snd (TpFanDriver_dtor thinkpad_fan quiet_world)) =
     [Write ''/proc/acpi/ibm/fan'' (''level auto'' @ [NUL] @ ''led'' @ replicate 240 NUL) None] \<and>
   map_sum id (\<lambda>d. take 5 (initial_state_f d))
     (fst (TpFanDriver_ctor ''/proc/acpi/ibm/fan'' (world_with ''/proc/acpi/ibm/fan'' stale_blank))) =
     Inr (''some'' @ [NUL]) \<and>
   \<not> commands_line_with_token stale_token \<and>
   \<not> isl (fst (TpFanDriver_ctor ''/proc/acpi/ibm/fan'' (world_with ''/proc/acpi/ibm/fan'' stale_token)))"
  using TpFanDriver_ctor_thinkpad TpFanDriver_ctor_stale_blank TpFanDriver_ctor_stale_token
  by (simp add: thinkpad_fan_def TpFanDriver_dtor_def write_file_def quiet_world_def)

section \<open>TpFanDriver: destruction\<close>

lemma TpFanDriver_calls_keeps:
  "TpFanDriver_calls d ls w = (d', w') \<Longrightarrow>
     path_f d' = path_f d \<and> initial_state_f d' = initial_state_f d"
proof (induction ls arbitrary: d w)
  case Nil
  then show ?case by simp
next
  case (Cons l ls)
  show ?case
  proof (cases "outcome w 0")
    case None
    with Cons.prems have
      "TpFanDriver_calls (d\<lparr>last_watchdog_ping_f := clock w\<rparr>) ls (snd (TpFanDriver_set_speed d l w)) = (d', w')"
      by (simp add: TpFanDriver_set_speed_outcome)
    from Cons.IH [OF this] show ?thesis by simp
  next
    case (Some e)
    with Cons.prems have
      "TpFanDriver_calls d ls (snd (TpFanDriver_set_speed d l w)) = (d', w')"
      by (simp add: TpFanDriver_set_speed_outcome)
    from Cons.IH [OF this] show ?thesis by simp
  qed
qed

text \<open>
  Whatever \<open>set_speed\<close> calls were made before, and whether they failed or not, the
  destructor attempts exactly one write, of \<open>level\<close> followed by the remembered
  state, to the control path; when that write fails it throws an IOerror carrying the
  errno.
\<close>

lemma TpFanDriver_dtor_one_write:
  assumes "TpFanDriver_calls d ls w = (d', w')"
  shows "trace (snd (TpFanDriver_dtor d' w')) =
           trace w' @ [Write (path_f d) (''level '' @ initial_state_f d) (outcome w' 0)] \<and>
         fst (TpFanDriver_dtor d' w') =
           (case outcome w' 0 of None \<Rightarrow> Inr ()
            | Some e \<Rightarrow> Inl (IOerror (MSG_FAN_RESET (path_f d)) e))"
  using TpFanDriver_calls_keeps [OF assms]
  by (auto simp: TpFanDriver_dtor_outcome split: option.splits)

text \<open>
  The line buffer keeps its 256 characters and its final NUL through every
  \<open>getline\<close>, and the remembered state is a tail of it. So the state that the
  constructor leaves is empty (no \<open>level:\<close> line) or ends in NUL.
\<close>

lemma store_cstr_buffer:
  assumes "length b = 256" "last b = NUL" "length cs \<le> 254"
  shows "length (store_cstr b cs) = 256 \<and> last (store_cstr b cs) = NUL"
proof -
  have ne: "drop (length cs + 1) b \<noteq> []" using assms by simp
  have "length (cs @ [NUL] @ drop (length cs + 1) b) = 256" using assms by simp
  then have eq: "store_cstr b cs = cs @ [NUL] @ drop (length cs + 1) b"
    using assms by (simp add: store_cstr_def)
  have "last (drop (length cs + 1) b) = last b"
    using ne by (simp add: last_drop)
  then show ?thesis using eq ne assms by simp
qed

lemma getline_buffer:
  assumes "length b = 256" "last b = NUL"
  shows "length (snd (getline f b 255)) = 256 \<and> last (snd (getline f b 255)) = NUL"
proof -
  have l: "length (takeWhile (\<lambda>c. c \<noteq> NL) (take 254 (drop (gpos f) (content f)))) \<le> 254"
    by (rule order_trans [OF length_takeWhile_le]) simp
  show ?thesis
    using store_cstr_buffer [OF assms l] store_cstr_buffer [OF assms, of "[]"]
    by (auto simp: getline_def Let_def)
qed

lemma find_last_of_from_pos:
  "find_last_of_from i s cs = Some j \<Longrightarrow> i \<le> j \<and> j < i + length s \<and> s ! (j - i) \<in> set cs"
proof (induction s arbitrary: i)
  case Nil
  then show ?case by simp
next
  case (Cons c s)
  show ?case
  proof (cases "find_last_of_from (Suc i) s cs")
    case None
    with Cons.prems show ?thesis by (auto split: if_splits)
  next
    case (Some k)
    with Cons.prems have "k = j" by simp
    with Cons.IH [of "Suc i"] Some have "Suc i \<le> j \<and> j < Suc i + length s \<and> s ! (j - Suc i) \<in> set cs"
      by simp
    then show ?thesis by (auto simp: nth_Cons')
  qed
qed

lemma after_last_blank_tail:
  assumes "line \<noteq> []" "last line = NUL"
  shows "after_last_blank line \<noteq> [] \<and> last (after_last_blank line) = NUL"
proof (cases "find_last_of line [CHR '' '', TAB]")
  case None
  then show ?thesis using assms by (simp add: after_last_blank_def)
next
  case (Some j)
  from find_last_of_from_pos [OF Some [unfolded find_last_of_def]]
  have j: "j < length line" "line ! j \<in> {CHR '' '', TAB}" by simp_all
  have "j \<noteq> length line - 1"
  proof
    assume "j = length line - 1"
    then have "line ! j = last line" using assms(1) by (simp add: last_conv_nth)
    with j(2) assms(2) show False by simp
  qed
  with j(1) have "j + 1 < length line" by simp
  then show ?thesis
    using assms by (simp add: after_last_blank_def Some last_drop)
qed

lemma TpFanDriver_scan_stop:
  "failbit (fst (getline f line 255)) \<Longrightarrow>
     TpFanDriver_scan f line initial_state ctrl_supported = (initial_state, ctrl_supported)"
  by (subst TpFanDriver_scan.simps) simp

lemma TpFanDriver_scan_step:
  "\<not> failbit (fst (getline f line 255)) \<Longrightarrow>
     TpFanDriver_scan f line initial_state ctrl_supported =
       (if rfind (snd (getline f line 255)) ''level:'' \<noteq> None then
          TpFanDriver_scan (fst (getline f line 255)) (snd (getline f line 255))
            (after_last_blank (snd (getline f line 255))) ctrl_supported
        else if rfind (snd (getline f line 255)) ''commands:'' \<noteq> None \<and>
                rfind (snd (getline f line 255)) ''level <level>'' \<noteq> None then
          TpFanDriver_scan (fst (getline f line 255)) (snd (getline f line 255)) initial_state True
        else TpFanDriver_scan (fst (getline f line 255)) (snd (getline f line 255))
               initial_state ctrl_supported)"
  by (subst TpFanDriver_scan.simps) (simp add: Let_def)

lemma TpFanDriver_scan_tail:
  assumes "length line = 256" "last line = NUL" "initial_state = [] \<or> last initial_state = NUL"
  shows "fst (TpFanDriver_scan f line initial_state ctrl_supported) = [] \<or>
         last (fst (TpFanDriver_scan f line initial_state ctrl_supported)) = NUL"
  using assms
proof (induction f line initial_state ctrl_supported rule: TpFanDriver_scan.induct)
  case (1 f line initial_state ctrl_supported)
  note b = getline_buffer [OF "1.prems"(1,2), of f]
  from b have ne: "snd (getline f line 255) \<noteq> []" by auto
  note t = after_last_blank_tail [OF ne conjunct2 [OF b]]
  show ?case
  proof (cases "failbit (fst (getline f line 255))")
    case True
    then show ?thesis using "1.prems"(3) by (simp add: TpFanDriver_scan_stop)
  next
    case False
    show ?thesis
    proof (cases "rfind (snd (getline f line 255)) ''level:'' \<noteq> None")
      case l: True
      from "1.IH"(1) [OF False refl refl l] b t
      show ?thesis using False l by (simp add: TpFanDriver_scan_step)
    next
      case l: False
      show ?thesis
      proof (cases "rfind (snd (getline f line 255)) ''commands:'' \<noteq> None \<and>
                    rfind (snd (getline f line 255)) ''level <level>'' \<noteq> None")
        case c: True
        from "1.IH"(2) [OF False refl refl l c] b "1.prems"(3)
        show ?thesis using False l c by (simp add: TpFanDriver_scan_step)
      next
        case c: False
        from "1.IH"(3) [OF False refl refl l c] b "1.prems"(3)
        show ?thesis using False l c by (auto simp: TpFanDriver_scan_step)
      qed
    qed
  qed
qed

lemma TpFanDriver_ctor_tail:
  assumes "fst (TpFanDriver_ctor path w) = Inr d"
  shows "initial_state_f d = [] \<or> last (initial_state_f d) = NUL"
proof -
  have "fst (TpFanDriver_scan (fst (open_in path w)) (replicate 256 NUL)
               (initial_state_f (FanDriver_ctor path 120)) False) = [] \<or>
        last (fst (TpFanDriver_scan (fst (open_in path w)) (replicate 256 NUL)
               (initial_state_f (FanDriver_ctor path 120)) False)) = NUL"
    by (rule TpFanDriver_scan_tail) (simp_all add: FanDriver_ctor_def)
  then show ?thesis
    using assms
    by (auto simp: TpFanDriver_ctor_def Let_def split: if_splits prod.splits)
qed

lemma TpFanDriver_dtor_text_tail:
  assumes "fst (TpFanDriver_ctor path w0) = Inr d" "TpFanDriver_calls d ls w = (d', w')"
  shows "\<exists>state. trace (snd (TpFanDriver_dtor d' w')) =
                    trace w' @ [Write path (''level '' @ state) (outcome w' 0)] \<and>
                  (state = [] \<or> last state = NUL)"
proof -
  have p: "path_f d = path"
    using assms(1)
    by (auto simp: TpFanDriver_ctor_def FanDriver_ctor_def Let_def split: if_splits prod.splits)
  show ?thesis
    using TpFanDriver_dtor_one_write [OF assms(2)] TpFanDriver_ctor_tail [OF assms(1)] p
    by (intro exI [of _ "initial_state_f d"]) simp
qed

text \<open>The level that the status text of thinkpad_acpi shows, and a failing \<open>set_speed\<close>.\<close>

lemma observed_level_ibm_fan: "observed_level ibm_fan = ''auto''"
  by code_simp

lemma thinkpad_fan_calls:
  "TpFanDriver_calls thinkpad_fan [level3] (thinkpad_world\<lparr>wr_script := [Some 5, Some 5]\<rparr>) =
     (thinkpad_fan, thinkpad_world\<lparr>wr_script := [Some 5],
        trace := [Write ''/proc/acpi/ibm/fan'' ''level 3'' (Some 5)], errno := 5\<rparr>)"
  by (simp add: TpFanDriver_set_speed_def FanDriver_set_speed_def write_file_def
        thinkpad_fan_def level3_def thinkpad_world_def quiet_world_def EPERM_def)

text \<open>
  Claim C4 says that the destructor writes the originally observed level string back to
  the control path. The destructor does attempt exactly one write, after a failed
  \<open>set_speed\<close> as well as without one, and a failing write leaves it as an IOerror
  carrying the errno (\<open>TpFanDriver_dtor_one_write\<close>). What it writes is the state
  that the constructor remembered, and that is a tail of the line buffer, which is never
  cut to the length of the line (the defect of claim C6): for every object that the
  constructor builds the written state is empty or ends in NUL
  (\<open>TpFanDriver_dtor_text_tail\<close>). On the status text of thinkpad_acpi the level
  observed is \<open>auto\<close>; the destructor writes \<open>level auto\<close>, NUL, \<open>led\<close> and
  240 NULs. (The declaration of the destructor is in drivers.h, outside the sources; the
  model takes the \<open>throw\<close> as it is written.)
\<close>

theorem TpFanDriver_dtor_writes_buffer_tail:
  "fst (TpFanDriver_ctor ''/proc/acpi/ibm/fan'' thinkpad_world) = Inr thinkpad_fan \<and>
   observed_level ibm_fan = ''auto'' \<and>
   trace (snd (TpFanDriver_dtor thinkpad_fan thinkpad_world)) =
     [Write ''/proc/acpi/ibm/fan'' (''level auto'' @ [NUL] @ ''led'' @ replicate 240 NUL) None] \<and>
   fst (TpFanDriver_dtor thinkpad_fan thinkpad_world) = Inr () \<and>
   fst (TpFanDriver_calls thinkpad_fan [level3] (thinkpad_world\<lparr>wr_script := [Some 5, Some 5]\<rparr>)) =
     thinkpad_fan \<and>
   trace (snd (TpFanDriver_calls thinkpad_fan [level3]
       (thinkpad_world\<lparr>wr_script := [Some 5, Some 5]\<rparr>))) =
     [Write ''/proc/acpi/ibm/fan'' ''level 3'' (Some 5)] \<and>
   trace (snd (TpFanDriver_dtor thinkpad_fan
       (snd (TpFanDriver_calls thinkpad_fan [level3]
          (thinkpad_world\<lparr>wr_script := [Some 5, Some 5]\<rparr>))))) =
     [Write ''/proc/acpi/ibm/fan'' ''level 3'' (Some 5),
      Write ''/proc/acpi/ibm/fan'' (''level auto'' @ [NUL] @ ''led'' @ replicate 240 NUL) (Some 5)] \<and>
   fst (TpFanDriver_dtor thinkpad_fan
       (snd (TpFanDriver_calls thinkpad_fan [level3]
          (thinkpad_world\<lparr>wr_script := [Some 5, Some 5]\<rparr>)))) =
     Inl (IOerror (MSG_FAN_RESET ''/proc/acpi/ibm/fan'') 5) \<and>
   ''level auto'' @ [NUL] @ ''led'' @ replicate 240 NUL \<noteq> ''level '' @ observed_level ibm_fan"
  unfolding thinkpad_fan_calls fst_conv snd_conv
  using TpFanDriver_ctor_thinkpad observed_level_ibm_fan
  by (simp add: TpFanDriver_dtor_def write_file_def thinkpad_fan_def thinkpad_world_def
        quiet_world_def)

section \<open>SensorDriver::set_correction\<close>

text \<open>
  Claim C7. A correction vector longer than \<open>num_temps()\<close> makes
  \<open>set_correction\<close> throw a ConfigError; the world, and with it the temperature
  aggregate, is left as it was and no correction vector is stored. A shorter vector is
  stored, and the only other effect is one logged warning. A vector of full length is
  stored silently.
\<close>

theorem SensorDriver_set_correction_length:
  "(num_temps s < length c \<longrightarrow>
      SensorDriver_set_correction s c w =
        (Inl (ConfigError (MSG_CONF_CORRECTION_LEN (path_s s) (length c) (num_temps_s s))), w)) \<and>
   (length c < num_temps s \<longrightarrow>
      SensorDriver_set_correction s c w =
        (Inr (s\<lparr>correction_s := c\<rparr>),
         w\<lparr>trace := trace w @
            [Log TF_WRN (MSG_CONF_CORRECTION_LEN (path_s s) (length c) (num_temps_s s))]\<rparr>)) \<and>
   (length c = num_temps s \<longrightarrow>
      SensorDriver_set_correction s c w = (Inr (s\<lparr>correction_s := c\<rparr>), w))"
  by (simp add: SensorDriver_set_correction_def log_def)

text \<open>Instances on the thermal sensor of three channels.\<close>

theorem SensorDriver_set_correction_length_witness:
  "SensorDriver_set_correction thermal [1, 2, 3, 4] thinkpad_world =
     (Inl (ConfigError (MSG_CONF_CORRECTION_LEN ''/proc/acpi/ibm/thermal'' 4 3)), thinkpad_world) \<and>
   SensorDriver_set_correction thermal [1] thinkpad_world =
     (Inr (thermal\<lparr>correction_s := [1]\<rparr>),
      thinkpad_world\<lparr>trace := trace thinkpad_world @
         [Log TF_WRN (MSG_CONF_CORRECTION_LEN ''/proc/acpi/ibm/thermal'' 1 3)]\<rparr>) \<and>
   SensorDriver_set_correction thermal [1, 0, - 5] thinkpad_world =
     (Inr (thermal\<lparr>correction_s := [1, 0, - 5]\<rparr>), thinkpad_world)"
  using SensorDriver_set_correction_length [of thermal "[1, 2, 3, 4]" thinkpad_world]
    SensorDriver_set_correction_length [of thermal "[1]" thinkpad_world]
    SensorDriver_set_correction_length [of thermal "[1, 0, - 5]" thinkpad_world]
  by (simp add: thermal_def num_temps_def)

section \<open>Reading integers from a valid file\<close>

lemma isdigit_not_isspace: "isdigit c \<Longrightarrow> \<not> isspace c"
  by (auto simp: isdigit_def isspace_def)

lemma sign_not_isspace: "\<not> isspace (CHR ''-'')" "\<not> isspace (CHR ''+'')"
  by (auto simp: isspace_def)

lemma sign_not_isdigit: "\<not> isdigit (CHR ''-'')" "\<not> isdigit (CHR ''+'')"
  by (auto simp: isdigit_def)

lemma isspace_not_isdigit: "isspace c \<Longrightarrow> \<not> isdigit c"
  by (auto simp: isdigit_def isspace_def)

lemma takeWhile_digits:
  assumes "list_all isdigit ds" "r = [] \<or> \<not> isdigit (hd r)"
  shows "takeWhile isdigit (ds @ r) = ds" "dropWhile isdigit (ds @ r) = r"
proof -
  have r: "takeWhile isdigit r = []" "dropWhile isdigit r = r"
    using assms(2) by (cases r; simp)+
  show "takeWhile isdigit (ds @ r) = ds" "dropWhile isdigit (ds @ r) = r"
    using assms(1) r by (simp_all add: takeWhile_append2 dropWhile_append2 list_all_iff)
qed

lemma extract_int_token:
  assumes g: "good f"
    and rest: "drop (gpos f) (content f) = ws @ t @ r"
    and ws: "list_all isspace ws"
    and t: "int_token t"
    and r: "r = [] \<or> \<not> isdigit (hd r)"
  shows "extract_int f =
           (f\<lparr>gpos := gpos f + length ws + length t, eofbit := (r = [])\<rparr>,
            word_of_int (token_value t))"
proof -
  from t obtain c t' where ct: "t = c # t'"
    by (cases t) (auto simp: int_token_def)
  define sg where "sg = (c = CHR ''-'' \<or> c = CHR ''+'')"
  from t have t': "list_all isdigit t'"
    and sgn: "sg \<Longrightarrow> t' \<noteq> []" and dig: "\<not> sg \<Longrightarrow> isdigit c"
    and range: "\<not> token_value t < INT_MIN" "\<not> INT_MAX < token_value t"
    by (auto simp: int_token_def ct sg_def Let_def split: if_splits)
  have c: "\<not> isspace c"
    using dig by (cases sg) (auto simp: sg_def sign_not_isspace isdigit_not_isspace)
  have tw: "takeWhile isspace (ws @ t @ r) = ws" and dw: "dropWhile isspace (ws @ t @ r) = t @ r"
    using ws c by (simp_all add: takeWhile_append2 dropWhile_append2 list_all_iff ct)
  note td = takeWhile_digits [OF t' r]
  show ?thesis
  proof (cases sg)
    case True
    then have nd: "\<not> isdigit c" by (auto simp: sg_def sign_not_isdigit)
    from True have v: "(if c = CHR ''-'' then - digits_val t' else digits_val t') = token_value t"
      by (auto simp: token_value_def ct sg_def)
    from True have sg': "c = CHR ''-'' \<or> c = CHR ''+''" by (simp add: sg_def)
    show ?thesis
      unfolding extract_int_def Let_def rest tw dw
      using g sgn [OF True] range sg' nd
      by (auto simp: ct td good_def token_value_def)
  next
    case False
    then have v: "digits_val (c # t') = token_value t"
      by (auto simp: token_value_def ct sg_def)
    from False have sg': "c \<noteq> CHR ''-''" "c \<noteq> CHR ''+''" by (simp_all add: sg_def)
    show ?thesis
      unfolding extract_int_def Let_def rest tw dw
      using g dig [OF False] range sg'
      by (auto simp: ct td good_def token_value_def)
  qed
qed

lemma extract_int_blank:
  assumes "good f" "dropWhile isspace (drop (gpos f) (content f)) = []"
  shows "eofbit (fst (extract_int f))" "failbit (fst (extract_int f))"
  using assms by (simp_all add: extract_int_def Let_def)

lemma extract_int_first_token:
  assumes g: "good f" and ne: "ws_tokens (drop (gpos f) (content f)) \<noteq> []"
    and it: "int_token (hd (ws_tokens (drop (gpos f) (content f))))"
  shows "\<not> failbit (fst (extract_int f)) \<and>
         snd (extract_int f) = word_of_int (token_value (hd (ws_tokens (drop (gpos f) (content f)))))"
proof -
  define rest where "rest = drop (gpos f) (content f)"
  define ws where "ws = takeWhile isspace rest"
  define r1 where "r1 = dropWhile isspace rest"
  define t where "t = takeWhile (\<lambda>c. \<not> isspace c) r1"
  define r2 where "r2 = dropWhile (\<lambda>c. \<not> isspace c) r1"
  have r1: "r1 \<noteq> []"
    using ne by (subst (asm) ws_tokens.simps) (auto simp: r1_def rest_def split: if_splits)
  then have toks: "ws_tokens rest = t # ws_tokens r2"
    by (subst ws_tokens.simps) (simp add: r1_def t_def r2_def)
  have split: "rest = ws @ t @ r2"
    by (simp add: ws_def t_def r2_def r1_def)
  have wsp: "list_all isspace ws"
    by (simp add: ws_def list_all_iff) (meson set_takeWhileD)
  have "r2 \<noteq> [] \<Longrightarrow> isspace (hd r2)"
    unfolding r2_def by (drule hd_dropWhile) simp
  then have r2: "r2 = [] \<or> \<not> isdigit (hd r2)"
    by (auto dest: isspace_not_isdigit)
  from it have it': "int_token t"
    by (simp add: rest_def [symmetric] toks)
  from extract_int_token [OF g split [unfolded rest_def] wsp it' r2] g
  show ?thesis
    by (simp add: rest_def [symmetric] toks good_def)
qed

lemma ws_tokens_isspace: "isspace x \<Longrightarrow> ws_tokens (x # r) = ws_tokens r"
proof -
  assume x: "isspace x"
  have "ws_tokens (x # r) =
     (if dropWhile isspace r = [] then []
      else takeWhile (\<lambda>c. \<not> isspace c) (dropWhile isspace r) #
           ws_tokens (dropWhile (\<lambda>c. \<not> isspace c) (dropWhile isspace r)))"
    using x by (subst ws_tokens.simps) simp
  also have "\<dots> = ws_tokens r"
    by (rule ws_tokens.simps [symmetric])
  finally show ?thesis .
qed

lemma isspace_NL: "isspace NL"
  by (simp add: isspace_def)

lemma TpSensorDriver_count_stop:
  "eofbit f \<or> failbit f \<Longrightarrow> TpSensorDriver_count f c = (f, c)"
  by (simp add: TpSensorDriver_count.simps)

lemma TpSensorDriver_count_step:
  "\<not> eofbit f \<Longrightarrow> \<not> failbit f \<Longrightarrow>
     TpSensorDriver_count f c =
       TpSensorDriver_count (fst (extract_int f)) (if failbit (fst (extract_int f)) then c else c + 1)"
  by (subst TpSensorDriver_count.simps) simp

lemma TpSensorDriver_read_loop_stop:
  "eofbit f \<Longrightarrow> TpSensorDriver_read_loop f tidx corr w = Some (Inr (), w)"
  by (subst TpSensorDriver_read_loop.simps) simp

lemma TpSensorDriver_read_loop_add:
  "\<not> eofbit f \<Longrightarrow> \<not> failbit (fst (extract_int f)) \<Longrightarrow> tidx < length corr \<Longrightarrow>
     TpSensorDriver_read_loop f tidx corr w =
       TpSensorDriver_read_loop (fst (extract_int f)) (tidx + 1) corr
         (add_temp (snd (extract_int f) + corr ! tidx) w)"
  by (subst TpSensorDriver_read_loop.simps) simp

lemma TpSensorDriver_read_loop_skip:
  "\<not> eofbit f \<Longrightarrow> failbit (fst (extract_int f)) \<Longrightarrow>
     TpSensorDriver_read_loop f tidx corr w =
       TpSensorDriver_read_loop (fst (extract_int f)) tidx corr w"
  by (subst TpSensorDriver_read_loop.simps) simp

text \<open>
  On a stream whose remaining tokens are all integers, the counting loop of the
  constructor ends at the end of the file with the number of tokens, and the loop of
  \<open>read_temps\<close> returns, having appended each reading plus its offset.
\<close>

lemma loops_on_tokens:
  assumes "good f" "list_all int_token (ws_tokens (drop (gpos f) (content f)))"
  shows "eofbit (fst (TpSensorDriver_count f c)) \<and>
         snd (TpSensorDriver_count f c) = c + length (ws_tokens (drop (gpos f) (content f))) \<and>
         (tidx + length (ws_tokens (drop (gpos f) (content f))) \<le> length corr \<longrightarrow>
            TpSensorDriver_read_loop f tidx corr w =
              Some (Inr (), w\<lparr>temp_state := temp_state w @
                       corrected (ws_tokens (drop (gpos f) (content f))) (drop tidx corr)\<rparr>))"
  using assms
proof (induction "length (drop (gpos f) (content f))" arbitrary: f c tidx w rule: less_induct)
  case less
  define rest where "rest = drop (gpos f) (content f)"
  define ws where "ws = takeWhile isspace rest"
  define r1 where "r1 = dropWhile isspace rest"
  have g: "\<not> eofbit f" "\<not> failbit f" using less.prems(1) by (simp_all add: good_def)
  show ?case
  proof (cases "r1 = []")
    case True
    then have toks: "ws_tokens rest = []"
      by (subst ws_tokens.simps) (simp add: r1_def)
    have e: "eofbit (fst (extract_int f))" "failbit (fst (extract_int f))"
      using extract_int_blank [OF less.prems(1)] True by (simp_all add: r1_def rest_def)
    have "TpSensorDriver_count f c = (fst (extract_int f), c)"
      using g e by (simp add: TpSensorDriver_count_step TpSensorDriver_count_stop)
    moreover have "TpSensorDriver_read_loop f tidx corr w = Some (Inr (), w)"
      using g e by (simp add: TpSensorDriver_read_loop_skip TpSensorDriver_read_loop_stop)
    ultimately show ?thesis
      using e toks by (simp add: rest_def [symmetric] corrected_def)
  next
    case False
    define t where "t = takeWhile (\<lambda>c. \<not> isspace c) r1"
    define r2 where "r2 = dropWhile (\<lambda>c. \<not> isspace c) r1"
    have toks: "ws_tokens rest = t # ws_tokens r2"
      using False by (subst ws_tokens.simps) (simp add: r1_def t_def r2_def)
    have split: "rest = ws @ t @ r2"
      by (simp add: ws_def t_def r2_def r1_def)
    have wsp: "list_all isspace ws"
      by (simp add: ws_def list_all_iff) (meson set_takeWhileD)
    have "r2 \<noteq> [] \<Longrightarrow> isspace (hd r2)"
      unfolding r2_def by (drule hd_dropWhile) simp
    then have r2: "r2 = [] \<or> \<not> isdigit (hd r2)"
      by (auto dest: isspace_not_isdigit)
    from less.prems(2) have it: "int_token t" and rest_ok: "list_all int_token (ws_tokens r2)"
      by (simp_all add: rest_def [symmetric] toks)
    define f' where "f' = f\<lparr>gpos := gpos f + length ws + length t, eofbit := (r2 = [])\<rparr>"
    define v where "v = (word_of_int (token_value t) :: cint)"
    have ex: "extract_int f = (f', v)"
      unfolding f'_def v_def
      by (rule extract_int_token [OF less.prems(1) split [unfolded rest_def] wsp it r2])
    have drop': "drop (gpos f') (content f') = r2"
    proof -
      have "drop (gpos f + length ws + length t) (content f) = drop (length ws + length t) rest"
        by (simp add: rest_def add.commute add.left_commute)
      also have "\<dots> = r2" by (simp add: split)
      finally show ?thesis by (simp add: f'_def)
    qed
    have nf: "\<not> failbit f'" using g by (simp add: f'_def)
    have cnt: "TpSensorDriver_count f c = TpSensorDriver_count f' (c + 1)"
      using g nf by (simp add: TpSensorDriver_count_step ex)
    show ?thesis
    proof (cases "r2 = []")
      case True
      then have e: "eofbit f'" by (simp add: f'_def)
      have t2: "ws_tokens r2 = []" using True by (subst ws_tokens.simps) simp
      have c1: "TpSensorDriver_count f c = (f', c + 1)"
        using cnt e by (simp add: TpSensorDriver_count_stop)
      have "tidx + 1 \<le> length corr \<Longrightarrow>
        TpSensorDriver_read_loop f tidx corr w =
          Some (Inr (), w\<lparr>temp_state := temp_state w @ corrected [t] (drop tidx corr)\<rparr>)"
      proof -
        assume a: "tidx + 1 \<le> length corr"
        then have lt: "tidx < length corr" by simp
        have "TpSensorDriver_read_loop f tidx corr w =
            TpSensorDriver_read_loop f' (tidx + 1) corr (add_temp (v + corr ! tidx) w)"
          using g nf lt by (simp add: TpSensorDriver_read_loop_add ex)
        also have "\<dots> = Some (Inr (), add_temp (v + corr ! tidx) w)"
          using e by (simp add: TpSensorDriver_read_loop_stop)
        finally show ?thesis
          using lt by (simp add: add_temp_def corrected_def v_def Cons_nth_drop_Suc [symmetric])
      qed
      then show ?thesis
        using c1 e by (simp add: rest_def [symmetric] toks t2)
    next
      case False
      then have g': "good f'" using g by (simp add: f'_def good_def)
      have "length r2 < length rest"
        using it by (auto simp: split int_token_def Let_def)
      then have smaller: "length (drop (gpos f') (content f')) < length (drop (gpos f) (content f))"
        by (simp only: drop' rest_def)
      note IH = less.hyps [OF smaller g' rest_ok [folded drop'], unfolded drop']
      have c1: "eofbit (fst (TpSensorDriver_count f c)) \<and>
          snd (TpSensorDriver_count f c) = c + length (ws_tokens rest)"
        using IH [of "c + 1" tidx w] by (simp add: cnt toks)
      have "tidx + length (ws_tokens rest) \<le> length corr \<Longrightarrow>
        TpSensorDriver_read_loop f tidx corr w =
          Some (Inr (), w\<lparr>temp_state := temp_state w @ corrected (ws_tokens rest) (drop tidx corr)\<rparr>)"
      proof -
        assume a: "tidx + length (ws_tokens rest) \<le> length corr"
        then have lt: "tidx < length corr"
          and a': "(tidx + 1) + length (ws_tokens r2) \<le> length corr"
          by (simp_all add: toks)
        have "TpSensorDriver_read_loop f tidx corr w =
            TpSensorDriver_read_loop f' (tidx + 1) corr (add_temp (v + corr ! tidx) w)"
          using g nf lt by (simp add: TpSensorDriver_read_loop_add ex)
        also have "\<dots> = Some (Inr (), (add_temp (v + corr ! tidx) w)\<lparr>temp_state :=
              temp_state (add_temp (v + corr ! tidx) w) @
              corrected (ws_tokens r2) (drop (tidx + 1) corr)\<rparr>)"
          using IH [of c "tidx + 1" "add_temp (v + corr ! tidx) w"] a' by simp
        finally show ?thesis
          using lt by (simp add: add_temp_def corrected_def v_def toks Cons_nth_drop_Suc [symmetric])
      qed
      with c1 show ?thesis by (simp add: rest_def [symmetric])
    qed
  qed
qed

lemma length_corrected: "length (corrected ts corr) = min (length ts) (length corr)"
  by (simp add: corrected_def)

lemma length_skip_prefix: "length skip_prefix = 13"
  by (simp add: skip_prefix_def)

lemma getline_skip_prefix:
  assumes "take (length skip_prefix) c = skip_prefix" "length skip_prefix < length c"
  shows "getline \<lparr>content = c, gpos = 0, eofbit = False, failbit = False\<rparr>
           (replicate (length skip_prefix) NUL) (length skip_prefix + 1) =
         (\<lparr>content = c, gpos = (if c ! 13 = NL then 14 else 13), eofbit = False,
            failbit = (c ! 13 \<noteq> NL)\<rparr>, skip_prefix)"
proof -
  have tw: "takeWhile (\<lambda>c. c \<noteq> NL) skip_prefix = skip_prefix"
    by (simp add: skip_prefix_def)
  have len: "length skip_prefix = 13" by (simp add: skip_prefix_def)
  have ne: "drop 13 c \<noteq> []" using assms(2) by (simp add: len)
  have hd: "hd (drop 13 c) = c ! 13" using assms(2) by (simp add: hd_drop_conv_nth len)
  show ?thesis
    using assms ne hd
    by (simp add: getline_def good_def Let_def tw len store_cstr_def)
qed

lemma thermal_tokens_after_prefix:
  assumes "thermal_format c"
  shows "ws_tokens (drop (if c ! 13 = NL then 14 else 13) c) = thermal_tokens c"
proof (cases "c ! 13 = NL")
  case True
  from assms have "13 < length c" by (simp add: thermal_format_def length_skip_prefix)
  then have "drop 13 c = NL # drop 14 c"
    using True by (simp add: Cons_nth_drop_Suc [symmetric])
  then show ?thesis
    using True by (simp add: thermal_tokens_def length_skip_prefix ws_tokens_isspace isspace_NL)
next
  case False
  then show ?thesis by (simp add: thermal_tokens_def length_skip_prefix)
qed

lemma TpSensorDriver_ctor_valid:
  assumes f: "files w path = Inr c" and fmt: "thermal_format c"
  shows "TpSensorDriver_ctor path w =
           (Inr \<lparr>path_s = path, num_temps_s = length (thermal_tokens c),
                 correction_s = replicate (length (thermal_tokens c)) 0,
                 skip_bytes_s = (if c ! 13 = NL then 14 else 13)\<rparr>, w)"
proof -
  define pos :: nat where "pos = (if c ! 13 = NL then 14 else 13)"
  define f0 where "f0 = \<lparr>content = c, gpos = 0, eofbit = False, failbit = False\<rparr>"
  define f1 where "f1 = \<lparr>content = c, gpos = pos, eofbit = False, failbit = (c ! 13 \<noteq> NL)\<rparr>"
  define f2 where "f2 = \<lparr>content = c, gpos = pos, eofbit = False, failbit = False\<rparr>"
  have o: "open_in path w = (f0, w)"
    by (simp add: open_in_def f f0_def)
  have base: "SensorDriver_ctor path w =
      (Inr \<lparr>path_s = path, num_temps_s = 0, correction_s = [], skip_bytes_s = 0\<rparr>, w)"
    by (simp add: SensorDriver_ctor_def o f0_def)
  have gl: "getline f0 (replicate (length skip_prefix) NUL) (length skip_prefix + 1) = (f1, skip_prefix)"
    unfolding f0_def f1_def pos_def
    using fmt by (intro getline_skip_prefix) (simp_all add: thermal_format_def)
  have gl': "getline f0 (replicate (length skip_prefix) NUL) (Suc (length skip_prefix)) = (f1, skip_prefix)"
    using gl by simp
  have nf0: "\<not> failbit f0" by (simp add: f0_def)
  have f12: "f1\<lparr>failbit := False\<rparr> = f2" by (simp add: f1_def f2_def)
  have tg: "tellg f2 = (f2, int pos)" by (simp add: tellg_def good_def f2_def)
  have g2: "good f2" by (simp add: good_def f2_def)
  have toks: "ws_tokens (drop (gpos f2) (content f2)) = thermal_tokens c"
    using thermal_tokens_after_prefix [OF fmt] by (simp add: f2_def pos_def)
  have "list_all int_token (ws_tokens (drop (gpos f2) (content f2)))"
    using fmt by (simp add: toks thermal_format_def)
  from loops_on_tokens [OF g2 this, of 0 0 "[]" w]
  have cnt: "snd (TpSensorDriver_count f2 0) = length (thermal_tokens c)"
    by (simp add: toks)
  show ?thesis
    by (simp add: TpSensorDriver_ctor_def base o gl' nf0 f12 tg cnt Let_def
          SensorDriver_set_num_temps_def resize_def pos_def)
qed

lemma TpSensorDriver_read_temps_valid:
  assumes f: "files w (path_s s) = Inr c" and fmt: "thermal_format c"
    and skip: "skip_bytes_s s = (if c ! 13 = NL then 14 else 13)"
    and len: "length (thermal_tokens c) \<le> length (correction_s s)"
  shows "TpSensorDriver_read_temps s w =
           Some (Inr (), w\<lparr>temp_state := temp_state w @
                   corrected (thermal_tokens c) (correction_s s)\<rparr>)"
proof -
  define pos :: nat where "pos = (if c ! 13 = NL then 14 else 13)"
  define f0 where "f0 = \<lparr>content = c, gpos = 0, eofbit = False, failbit = False\<rparr>"
  define f2 where "f2 = \<lparr>content = c, gpos = pos, eofbit = False, failbit = False\<rparr>"
  have o: "open_in (path_s s) w = (f0, w)"
    by (simp add: open_in_def f f0_def)
  have sk: "seekg f0 (skip_bytes_s s) = f2"
    by (simp add: seekg_def f0_def f2_def skip pos_def Let_def)
  have g2: "good f2" by (simp add: good_def f2_def)
  have toks: "ws_tokens (drop (gpos f2) (content f2)) = thermal_tokens c"
    using thermal_tokens_after_prefix [OF fmt] by (simp add: f2_def pos_def)
  have "list_all int_token (ws_tokens (drop (gpos f2) (content f2)))"
    using fmt by (simp add: toks thermal_format_def)
  from loops_on_tokens [OF g2 this, of 0 0 "correction_s s" w] len
  have "TpSensorDriver_read_loop f2 0 (correction_s s) w =
      Some (Inr (), w\<lparr>temp_state := temp_state w @
              corrected (thermal_tokens c) (correction_s s)\<rparr>)"
    by (simp add: toks)
  then show ?thesis
    by (simp add: TpSensorDriver_read_temps_def o sk Let_def) (simp add: f0_def f2_def)
qed

lemma HwmonSensorDriver_ctor_valid:
  assumes "files w path = Inr c"
  shows "HwmonSensorDriver_ctor path w =
           (Inr \<lparr>path_s = path, num_temps_s = 1, correction_s = [0], skip_bytes_s = 0\<rparr>, w)"
  using assms
  by (simp add: HwmonSensorDriver_ctor_def SensorDriver_ctor_def open_in_def
        SensorDriver_set_num_temps_def resize_def)

lemma HwmonSensorDriver_read_temps_valid:
  assumes f: "files w (path_s s) = Inr c" and fmt: "hwmon_format c"
    and corr: "correction_s s \<noteq> []"
  shows "HwmonSensorDriver_read_temps s w =
           (Inr (), w\<lparr>temp_state := temp_state w @
              [word_of_int (sint (word_of_int (token_value (hd (ws_tokens c))) :: cint) sdiv 1000)
               + correction_s s ! 0]\<rparr>)"
proof -
  define f0 where "f0 = \<lparr>content = c, gpos = 0, eofbit = False, failbit = False\<rparr>"
  have o: "open_in (path_s s) w = (f0, w)"
    by (simp add: open_in_def f f0_def)
  have g: "good f0" by (simp add: good_def f0_def)
  have d: "drop (gpos f0) (content f0) = c" by (simp add: f0_def)
  from fmt have "ws_tokens (drop (gpos f0) (content f0)) \<noteq> []"
    and "int_token (hd (ws_tokens (drop (gpos f0) (content f0))))"
    by (simp_all add: d hwmon_format_def)
  from extract_int_first_token [OF g this]
  have ex: "\<not> failbit (fst (extract_int f0))"
    "snd (extract_int f0) = word_of_int (token_value (hd (ws_tokens c)))"
    by (simp_all add: d)
  have nf0: "\<not> failbit f0" by (simp add: f0_def)
  show ?thesis
    using ex corr nf0
    by (simp add: HwmonSensorDriver_read_temps_def o Let_def add_temp_def case_prod_beta)
qed

text \<open>
  With a correction vector shorter than the number of readings, the loop of
  \<open>read_temps\<close> appends as many values as the vector has offsets and then indexes
  the vector out of bounds.
\<close>

lemma TpSensorDriver_read_loop_out_of_bounds:
  "\<not> eofbit f \<Longrightarrow> \<not> failbit (fst (extract_int f)) \<Longrightarrow> \<not> tidx < length corr \<Longrightarrow>
     TpSensorDriver_read_loop f tidx corr w = Some (Inl OutOfBounds, w)"
  by (subst TpSensorDriver_read_loop.simps) simp

lemma read_loop_short_correction:
  assumes "good f" "list_all int_token (ws_tokens (drop (gpos f) (content f)))"
    and "tidx \<le> length corr"
    and "length corr < tidx + length (ws_tokens (drop (gpos f) (content f)))"
  shows "TpSensorDriver_read_loop f tidx corr w =
           Some (Inl OutOfBounds, w\<lparr>temp_state := temp_state w @
                   corrected (ws_tokens (drop (gpos f) (content f))) (drop tidx corr)\<rparr>)"
  using assms
proof (induction "length (drop (gpos f) (content f))" arbitrary: f tidx w rule: less_induct)
  case less
  define rest where "rest = drop (gpos f) (content f)"
  define ws where "ws = takeWhile isspace rest"
  define r1 where "r1 = dropWhile isspace rest"
  have g: "\<not> eofbit f" "\<not> failbit f" using less.prems(1) by (simp_all add: good_def)
  have ne: "r1 \<noteq> []"
  proof
    assume "r1 = []"
    then have "ws_tokens rest = []"
      by (subst ws_tokens.simps) (simp add: r1_def)
    with less.prems(3,4) show False by (simp add: rest_def)
  qed
  define t where "t = takeWhile (\<lambda>c. \<not> isspace c) r1"
  define r2 where "r2 = dropWhile (\<lambda>c. \<not> isspace c) r1"
  have toks: "ws_tokens rest = t # ws_tokens r2"
    using ne by (subst ws_tokens.simps) (simp add: r1_def t_def r2_def)
  have split: "rest = ws @ t @ r2"
    by (simp add: ws_def t_def r2_def r1_def)
  have wsp: "list_all isspace ws"
    by (simp add: ws_def list_all_iff) (meson set_takeWhileD)
  have "r2 \<noteq> [] \<Longrightarrow> isspace (hd r2)"
    unfolding r2_def by (drule hd_dropWhile) simp
  then have r2: "r2 = [] \<or> \<not> isdigit (hd r2)"
    by (auto dest: isspace_not_isdigit)
  from less.prems(2) have it: "int_token t" and rest_ok: "list_all int_token (ws_tokens r2)"
    by (simp_all add: rest_def [symmetric] toks)
  define f' where "f' = f\<lparr>gpos := gpos f + length ws + length t, eofbit := (r2 = [])\<rparr>"
  define v where "v = (word_of_int (token_value t) :: cint)"
  have ex: "extract_int f = (f', v)"
    unfolding f'_def v_def
    by (rule extract_int_token [OF less.prems(1) split [unfolded rest_def] wsp it r2])
  have drop': "drop (gpos f') (content f') = r2"
  proof -
    have "drop (gpos f + length ws + length t) (content f) = drop (length ws + length t) rest"
      by (simp add: rest_def add.commute add.left_commute)
    also have "\<dots> = r2" by (simp add: split)
    finally show ?thesis by (simp add: f'_def)
  qed
  have nf: "\<not> failbit f'" using g by (simp add: f'_def)
  show ?case
  proof (cases "tidx < length corr")
    case False
    then have "drop tidx corr = []" by simp
    moreover have "TpSensorDriver_read_loop f tidx corr w = Some (Inl OutOfBounds, w)"
      using g nf False by (simp add: TpSensorDriver_read_loop_out_of_bounds ex)
    ultimately show ?thesis by (simp add: corrected_def)
  next
    case lt: True
    with less.prems(4) have more: "ws_tokens r2 \<noteq> []"
      by (auto simp: rest_def [symmetric] toks)
    have r2ne: "r2 \<noteq> []"
    proof
      assume "r2 = []"
      then have "ws_tokens r2 = []" by (subst ws_tokens.simps) simp
      with more show False by simp
    qed
    then have g': "good f'" using g by (simp add: f'_def good_def)
    have "length r2 < length rest"
      using it by (auto simp: split int_token_def Let_def)
    then have smaller: "length (drop (gpos f') (content f')) < length (drop (gpos f) (content f))"
      by (simp only: drop' rest_def)
    have b1: "tidx + 1 \<le> length corr" using lt by simp
    have b2: "length corr < (tidx + 1) + length (ws_tokens (drop (gpos f') (content f')))"
      using less.prems(4) by (simp add: rest_def [symmetric] toks drop')
    note IH = less.hyps [OF smaller g' rest_ok [folded drop'] b1 b2, unfolded drop']
    have "TpSensorDriver_read_loop f tidx corr w =
        TpSensorDriver_read_loop f' (tidx + 1) corr (add_temp (v + corr ! tidx) w)"
      using g nf lt by (simp add: TpSensorDriver_read_loop_add ex)
    also have "\<dots> = Some (Inl OutOfBounds, (add_temp (v + corr ! tidx) w)\<lparr>temp_state :=
          temp_state (add_temp (v + corr ! tidx) w) @
          corrected (ws_tokens r2) (drop (tidx + 1) corr)\<rparr>)"
      using IH [of "add_temp (v + corr ! tidx) w"] by simp
    finally show ?thesis
      using lt
      by (simp add: add_temp_def corrected_def v_def toks rest_def [symmetric]
            Cons_nth_drop_Suc [symmetric])
  qed
qed

lemma TpSensorDriver_read_temps_short:
  assumes f: "files w (path_s s) = Inr c" and fmt: "thermal_format c"
    and skip: "skip_bytes_s s = (if c ! 13 = NL then 14 else 13)"
    and len: "length (correction_s s) < length (thermal_tokens c)"
  shows "TpSensorDriver_read_temps s w =
           Some (Inl OutOfBounds, w\<lparr>temp_state := temp_state w @
                   corrected (thermal_tokens c) (correction_s s)\<rparr>) \<and>
         length (corrected (thermal_tokens c) (correction_s s)) = length (correction_s s)"
proof -
  define pos :: nat where "pos = (if c ! 13 = NL then 14 else 13)"
  define f0 where "f0 = \<lparr>content = c, gpos = 0, eofbit = False, failbit = False\<rparr>"
  define f2 where "f2 = \<lparr>content = c, gpos = pos, eofbit = False, failbit = False\<rparr>"
  have o: "open_in (path_s s) w = (f0, w)"
    by (simp add: open_in_def f f0_def)
  have sk: "seekg f0 (skip_bytes_s s) = f2"
    by (simp add: seekg_def f0_def f2_def skip pos_def Let_def)
  have g2: "good f2" by (simp add: good_def f2_def)
  have toks: "ws_tokens (drop (gpos f2) (content f2)) = thermal_tokens c"
    using thermal_tokens_after_prefix [OF fmt] by (simp add: f2_def pos_def)
  have ok: "list_all int_token (ws_tokens (drop (gpos f2) (content f2)))"
    using fmt by (simp add: toks thermal_format_def)
  have "length (correction_s s) < 0 + length (ws_tokens (drop (gpos f2) (content f2)))"
    using len by (simp add: toks)
  from read_loop_short_correction [OF g2 ok _ this, of w]
  have "TpSensorDriver_read_loop f2 0 (correction_s s) w =
      Some (Inl OutOfBounds, w\<lparr>temp_state := temp_state w @
              corrected (thermal_tokens c) (correction_s s)\<rparr>)"
    by (simp add: toks)
  then have "TpSensorDriver_read_temps s w =
      Some (Inl OutOfBounds, w\<lparr>temp_state := temp_state w @
              corrected (thermal_tokens c) (correction_s s)\<rparr>)"
    by (simp add: TpSensorDriver_read_temps_def o sk Let_def) (simp add: f0_def f2_def)
  then show ?thesis using len by (simp add: length_corrected)
qed

lemma registered_read_temps:
  assumes reg: "registered b w" and val: "valid_input b w" and same: "files w' = files w"
  shows "read_temps b w' = Some (Inr (), w'\<lparr>temp_state := temp_state w' @ file_readings b w\<rparr>) \<and>
         length (file_readings b w) = num_temps (driver b)"
proof (cases b)
  case (HwmonSensor s)
  from val obtain c where f: "files w (path_s s) = Inr c" and fmt: "hwmon_format c"
    by (auto simp: valid_input_def HwmonSensor split: sum.splits)
  from reg have eq: "s = \<lparr>path_s = path_s s, num_temps_s = 1, correction_s = correction_s s,
        skip_bytes_s = 0\<rparr>" and l: "length (correction_s s) = 1"
    by (auto simp: registered_def HwmonSensor HwmonSensorDriver_ctor_valid [OF f] num_temps_def)
  from arg_cong [OF eq, where f = num_temps_s] have "num_temps_s s = 1"
    by simp
  with l have s: "num_temps_s s = 1" "length (correction_s s) = 1" by simp_all
  then have ne: "correction_s s \<noteq> []" by auto
  from f same have f': "files w' (path_s s) = Inr c" by simp
  show ?thesis
    using s
    by (simp add: HwmonSensor HwmonSensorDriver_read_temps_valid [OF f' fmt ne]
          file_readings_def f num_temps_def)
next
  case (TpSensor s)
  from val obtain c where f: "files w (path_s s) = Inr c" and fmt: "thermal_format c"
    by (auto simp: valid_input_def TpSensor split: sum.splits)
  from reg have eq: "s = \<lparr>path_s = path_s s, num_temps_s = length (thermal_tokens c),
        correction_s = correction_s s, skip_bytes_s = (if c ! 13 = NL then 14 else 13)\<rparr>"
    and l: "length (correction_s s) = length (thermal_tokens c)"
    by (auto simp: registered_def TpSensor TpSensorDriver_ctor_valid [OF f fmt] num_temps_def)
  from arg_cong [OF eq, where f = num_temps_s] have "num_temps_s s = length (thermal_tokens c)"
    by simp
  moreover from arg_cong [OF eq, where f = skip_bytes_s]
  have "skip_bytes_s s = (if c ! 13 = NL then 14 else 13)"
    by simp
  ultimately have s: "num_temps_s s = length (thermal_tokens c)"
    "length (correction_s s) = length (thermal_tokens c)"
    "skip_bytes_s s = (if c ! 13 = NL then 14 else 13)"
    using l by simp_all
  from f same have f': "files w' (path_s s) = Inr c" by simp
  have len: "length (thermal_tokens c) \<le> length (correction_s s)" using s by simp
  show ?thesis
    using s
    by (simp add: TpSensor TpSensorDriver_read_temps_valid [OF f' fmt s(3) len]
          file_readings_def f num_temps_def length_corrected)
qed

section \<open>The number of readings\<close>

text \<open>
  With correction vectors of full length, a polling cycle over bindings on valid files
  returns without error, and the aggregate is then made of the readings of the bindings
  in the order of registration, \<open>num_temps()\<close> values for each.
\<close>

lemma registered_read_all:
  assumes "\<forall>b \<in> set bs. registered b w \<and> valid_input b w" "files w' = files w"
  shows "read_all bs w' =
           Some (Inr (), w'\<lparr>temp_state := temp_state w' @ concat (map (\<lambda>b. file_readings b w) bs)\<rparr>)"
  using assms
proof (induction bs arbitrary: w')
  case Nil
  then show ?case by simp
next
  case (Cons b bs)
  from Cons.prems have "registered b w" "valid_input b w" by simp_all
  note r = registered_read_temps [OF this Cons.prems(2)]
  have "files (w'\<lparr>temp_state := temp_state w' @ file_readings b w\<rparr>) = files w"
    using Cons.prems(2) by simp
  from Cons.IH [OF _ this] Cons.prems(1) r show ?case by simp
qed

lemma registered_polling_cycle:
  assumes "\<forall>b \<in> set sensors. registered b w \<and> valid_input b w"
  shows "polling_cycle sensors w =
           Some (Inr (), w\<lparr>temp_state := concat (map (\<lambda>b. file_readings b w) sensors)\<rparr>) \<and>
         length (concat (map (\<lambda>b. file_readings b w) sensors)) =
           sum_list (map (\<lambda>b. num_temps (driver b)) sensors)"
proof
  show "polling_cycle sensors w =
      Some (Inr (), w\<lparr>temp_state := concat (map (\<lambda>b. file_readings b w) sensors)\<rparr>)"
    using registered_read_all [OF assms, of "w\<lparr>temp_state := []\<rparr>"]
    by (simp add: polling_cycle_def)
  have "\<forall>b \<in> set sensors. length (file_readings b w) = num_temps (driver b)"
    using assms registered_read_temps [of _ w w] by blast
  then have "sum_list (map (\<lambda>b. length (file_readings b w)) sensors) =
      sum_list (map (\<lambda>b. num_temps (driver b)) sensors)"
    by (induction sensors) auto
  then show "length (concat (map (\<lambda>b. file_readings b w) sensors)) =
      sum_list (map (\<lambda>b. num_temps (driver b)) sensors)"
    by (simp add: length_concat comp_def)
qed

text \<open>An instance: a hwmon sensor and the thermal sensor.\<close>

lemma sample_sensors_valid:
  "\<forall>b \<in> set [HwmonSensor (temp1\<lparr>correction_s := [2]\<rparr>),
               TpSensor (thermal\<lparr>correction_s := [1, 0, - 5]\<rparr>)].
     registered b thinkpad_world \<and> valid_input b thinkpad_world"
  by code_simp

text \<open>
  Claim C8 says that one \<open>read_temps()\<close> call appends exactly \<open>num_temps()\<close>
  values, for every sensor binding and every valid input. \<open>set_correction\<close> accepts
  a vector shorter than \<open>num_temps()\<close> and stores it as it is (the defect of claim
  C1); \<open>read_temps\<close> then appends only as many values as the vector has offsets
  (\<open>TpSensorDriver_read_temps_short\<close>). The thermal sensor of three channels with the
  vector \<open>[1]\<close>, on its valid file, appends one value and then indexes the vector out
  of bounds; the hwmon sensor with an empty vector appends none. A polling cycle over the
  hwmon sensor and that thermal sensor ends there with two values in the aggregate; with
  the vector \<open>[1, 0, -5]\<close> it completes with four. (With vectors of full length the
  count is \<open>num_temps()\<close>: \<open>registered_read_temps\<close>, \<open>registered_polling_cycle\<close>.)
\<close>

theorem read_temps_short_correction_count:
  "fst (TpSensorDriver_ctor ''/proc/acpi/ibm/thermal'' thinkpad_world) = Inr thermal \<and>
   fst (SensorDriver_set_correction thermal [1] thinkpad_world) =
     Inr (thermal\<lparr>correction_s := [1]\<rparr>) \<and>
   num_temps (thermal\<lparr>correction_s := [1]\<rparr>) = 3 \<and>
   valid_input (TpSensor (thermal\<lparr>correction_s := [1]\<rparr>)) thinkpad_world \<and>
   map_option (\<lambda>r. (fst r, temp_state (snd r)))
     (read_temps (TpSensor (thermal\<lparr>correction_s := [1]\<rparr>)) thinkpad_world) =
     Some (Inl OutOfBounds, [46]) \<and>
   fst (HwmonSensorDriver_ctor ''/sys/class/hwmon/hwmon0/temp1_input'' thinkpad_world) = Inr temp1 \<and>
   fst (SensorDriver_set_correction temp1 [] thinkpad_world) = Inr (temp1\<lparr>correction_s := []\<rparr>) \<and>
   num_temps (temp1\<lparr>correction_s := []\<rparr>) = 1 \<and>
   valid_input (HwmonSensor (temp1\<lparr>correction_s := []\<rparr>)) thinkpad_world \<and>
   map_option (\<lambda>r. (fst r, temp_state (snd r)))
     (read_temps (HwmonSensor (temp1\<lparr>correction_s := []\<rparr>)) thinkpad_world) =
     Some (Inl OutOfBounds, []) \<and>
   map_option (\<lambda>r. (fst r, temp_state (snd r)))
     (polling_cycle [HwmonSensor (temp1\<lparr>correction_s := [2]\<rparr>),
                     TpSensor (thermal\<lparr>correction_s := [1]\<rparr>)]
        (thinkpad_world\<lparr>temp_state := [99]\<rparr>)) =
     Some (Inl OutOfBounds, [45, 46]) \<and>
   map_option (\<lambda>r. (fst r, temp_state (snd r)))
     (polling_cycle [HwmonSensor (temp1\<lparr>correction_s := [2]\<rparr>),
                     TpSensor (thermal\<lparr>correction_s := [1, 0, - 5]\<rparr>)]
        (thinkpad_world\<lparr>temp_state := [99]\<rparr>)) =
     Some (Inr (), [45, 46, 50, - 5])"
  by code_simp

text \<open>
  The format matters. Once an extraction has failed before the end of the file, every
  further extraction fails at once and \<open>eofbit\<close> is never set, so the loop of
  \<open>read_temps\<close> does not return. On \<open>garbled_text\<close> the constructor counts one
  channel, and \<open>read_temps\<close> never returns.
\<close>

lemma extract_int_stuck:
  "failbit f \<Longrightarrow> \<not> eofbit f \<Longrightarrow> extract_int f = (f, 0)"
  by (simp add: extract_int_def good_def)

lemma TpSensorDriver_read_loop_returns:
  assumes "TpSensorDriver_read_loop f tidx corr w = Some r"
  shows "eofbit f \<or> \<not> failbit f"
proof (rule TpSensorDriver_read_loop.raw_induct
    [where P = "\<lambda>f tidx corr w r. eofbit f \<or> \<not> failbit f", OF _ assms], goal_cases)
  case (1 loop f tidx corr w r)
  show ?case
  proof (rule ccontr)
    assume "\<not> (eofbit f \<or> \<not> failbit f)"
    then have s: "failbit f" "\<not> eofbit f" by simp_all
    then have e: "extract_int f = (f, 0)" by (rule extract_int_stuck)
    from 1(2) s e have "loop f tidx corr w = Some r" by simp
    from 1(1) [OF this] s show False by simp
  qed
qed

lemma TpSensorDriver_read_loop_stuck:
  "failbit f \<Longrightarrow> \<not> eofbit f \<Longrightarrow> TpSensorDriver_read_loop f tidx corr w = None"
  using TpSensorDriver_read_loop_returns [of f tidx corr w] by (cases "TpSensorDriver_read_loop f tidx corr w") auto

lemma garbled_ctor:
  "fst (TpSensorDriver_ctor ''/proc/acpi/ibm/thermal'' (world_with ''/proc/acpi/ibm/thermal'' garbled_text)) =
     Inr (thermal\<lparr>num_temps_s := 1, correction_s := [0]\<rparr>)"
  by code_simp

lemma garbled_steps:
  "extract_int \<lparr>content = garbled_text, gpos = 13, eofbit = False, failbit = False\<rparr> =
     (\<lparr>content = garbled_text, gpos = 16, eofbit = False, failbit = False\<rparr>, 45)"
  "extract_int \<lparr>content = garbled_text, gpos = 16, eofbit = False, failbit = False\<rparr> =
     (\<lparr>content = garbled_text, gpos = 17, eofbit = False, failbit = True\<rparr>, 0)"
  by code_simp+

lemma read_temps_never_returns:
  "TpSensorDriver_read_temps (thermal\<lparr>num_temps_s := 1, correction_s := [0]\<rparr>)
     (world_with ''/proc/acpi/ibm/thermal'' garbled_text) = None"
proof -
  let ?w = "world_with ''/proc/acpi/ibm/thermal'' garbled_text"
  let ?f1 = "\<lparr>content = garbled_text, gpos = 13, eofbit = False, failbit = False\<rparr>"
  let ?f2 = "\<lparr>content = garbled_text, gpos = 16, eofbit = False, failbit = False\<rparr>"
  let ?f3 = "\<lparr>content = garbled_text, gpos = 17, eofbit = False, failbit = True\<rparr>"
  have "TpSensorDriver_read_loop ?f1 0 [0] ?w =
      TpSensorDriver_read_loop ?f2 1 [0] (add_temp (45 + 0) ?w)"
    by (subst TpSensorDriver_read_loop.simps) (simp add: garbled_steps)
  also have "\<dots> = TpSensorDriver_read_loop ?f3 1 [0] (add_temp (45 + 0) ?w)"
    by (subst TpSensorDriver_read_loop.simps) (simp add: garbled_steps)
  also have "\<dots> = None"
    by (rule TpSensorDriver_read_loop_stuck) simp_all
  finally show ?thesis
    by (simp add: TpSensorDriver_read_temps_def open_in_def world_with_def quiet_world_def
          seekg_def thermal_def Let_def)
qed

section \<open>The thermal example\<close>

lemma TpSensorDriver_ctor_thermal:
  "fst (TpSensorDriver_ctor ''/proc/acpi/ibm/thermal'' thinkpad_world) = Inr thermal"
  by code_simp

lemma thermal_file: "files thinkpad_world ''/proc/acpi/ibm/thermal'' = Inr thermal_text"
  by (simp add: thinkpad_world_def quiet_world_def)

lemma thermal_file_format: "thermal_format thermal_text"
  by code_simp

lemma thermal_file_corrected:
  "corrected (thermal_tokens thermal_text) [1, 0, - 5] = [46, 50, - 5]"
  by code_simp

lemma thermal_file_tokens: "length (thermal_tokens thermal_text) = 3"
  by code_simp

text \<open>
  Claim C9. Constructed on the text \<open>temperatures: 45 50 0\<close> and a newline, the
  TpSensorDriver has \<open>num_temps() = 3\<close>; with the correction vector \<open>[1, 0, -5]\<close>
  one \<open>read_temps()\<close> appends \<open>46, 50, -5\<close>, in that order, to whatever the
  aggregate held.
\<close>

theorem thermal_example:
  "fst (TpSensorDriver_ctor ''/proc/acpi/ibm/thermal'' thinkpad_world) = Inr thermal \<and>
   num_temps thermal = 3 \<and>
   fst (SensorDriver_set_correction thermal [1, 0, - 5] thinkpad_world) =
     Inr (thermal\<lparr>correction_s := [1, 0, - 5]\<rparr>) \<and>
   TpSensorDriver_read_temps (thermal\<lparr>correction_s := [1, 0, - 5]\<rparr>)
       (thinkpad_world\<lparr>temp_state := agg\<rparr>) =
     Some (Inr (), thinkpad_world\<lparr>temp_state := agg @ [46, 50, - 5]\<rparr>)"
proof -
  have f: "files (thinkpad_world\<lparr>temp_state := agg\<rparr>)
      (path_s (thermal\<lparr>correction_s := [1, 0, - 5]\<rparr>)) = Inr thermal_text"
    by (simp add: thermal_file thermal_def)
  have sk: "skip_bytes_s (thermal\<lparr>correction_s := [1, 0, - 5]\<rparr>) =
      (if thermal_text ! 13 = NL then 14 else 13)"
    by (simp add: thermal_def thermal_text_def)
  have len: "length (thermal_tokens thermal_text)
      \<le> length (correction_s (thermal\<lparr>correction_s := [1, 0, - 5]\<rparr>))"
    by (simp add: thermal_file_tokens)
  show ?thesis
    using TpSensorDriver_read_temps_valid [OF f thermal_file_format sk len]
    by (simp add: TpSensorDriver_ctor_thermal thermal_file_corrected
          SensorDriver_set_correction_def)
       (simp add: thermal_def num_temps_def)
qed

section \<open>A correction vector that is too short\<close>

text \<open>
  Claim C1 says that offsets beyond the length of the correction vector count as zero.
  \<open>set_num_temps\<close> fills the vector with zeros, but \<open>set_correction\<close> then replaces
  it by the shorter vector, and \<open>read_temps\<close> indexes it by channel. On the thermal
  sample with the vector \<open>[1]\<close> the first reading is appended as \<open>46\<close>, and the
  second channel reads \<open>correction_[1]\<close> of a vector of one element; on the hwmon
  sensor with an empty vector \<open>correction_[0]\<close> is out of bounds at once. (For a
  vector of full length each value is the reading plus its offset:
  \<open>TpSensorDriver_read_temps_valid\<close>, \<open>HwmonSensorDriver_read_temps_valid\<close>.)
\<close>

theorem short_correction_out_of_bounds:
  "fst (SensorDriver_set_correction thermal [1] thinkpad_world) = Inr (thermal\<lparr>correction_s := [1]\<rparr>) \<and>
   map_option (\<lambda>r. (fst r, temp_state (snd r)))
     (TpSensorDriver_read_temps (thermal\<lparr>correction_s := [1]\<rparr>) thinkpad_world) =
     Some (Inl OutOfBounds, [46]) \<and>
   fst (SensorDriver_set_correction temp1 [] thinkpad_world) = Inr (temp1\<lparr>correction_s := []\<rparr>) \<and>
   fst (HwmonSensorDriver_read_temps (temp1\<lparr>correction_s := []\<rparr>) thinkpad_world) = Inl OutOfBounds"
  by code_simp

end
